theory Spec2Isabelle
  imports Main
begin

section \<open>Python strings and values\<close>

text \<open>
  Strings are \<open>char list\<close>; one \<open>char\<close> stands for one code point below 256.  The
  functions below are the \<open>str\<close> methods the scraper calls.  \<open>lower\<close> is only ever compared
  with ASCII patterns, so it maps the letters \<open>A\<close> to \<open>Z\<close>; \<open>isspace\<close> is the white space of
  \<open>str.strip\<close> and of \<open>\s\<close>, which below 256 includes U+0085 and U+00A0.
\<close>

definition lower_char :: "char \<Rightarrow> char" where
  "lower_char c =
     (case map_of (zip ''ABCDEFGHIJKLMNOPQRSTUVWXYZ'' ''abcdefghijklmnopqrstuvwxyz'') c of
        Some d \<Rightarrow> d
      | None \<Rightarrow> c)"

definition lower :: "string \<Rightarrow> string" where
  "lower s = map lower_char s"

definition startswith :: "string \<Rightarrow> string \<Rightarrow> bool" where
  "startswith s p = (take (length p) s = p)"

definition endswith :: "string \<Rightarrow> string \<Rightarrow> bool" where
  "endswith s p = (length p \<le> length s \<and> drop (length s - length p) s = p)"

text \<open>\<open>str_in p s\<close> is Python's \<open>p in s\<close> on strings.\<close>

fun str_in :: "string \<Rightarrow> string \<Rightarrow> bool" where
  "str_in p [] = (p = [])"
| "str_in p (c # cs) = (startswith (c # cs) p \<or> str_in p cs)"

definition isdigit :: "char \<Rightarrow> bool" where
  "isdigit c = (c \<in> set ''0123456789'')"

definition isspace :: "char \<Rightarrow> bool" where
  "isspace c =
     (let n = (of_char c :: nat)
      in (9 \<le> n \<and> n \<le> 13) \<or> (28 \<le> n \<and> n \<le> 32) \<or> n = 133 \<or> n = 160)"

definition strip :: "string \<Rightarrow> string" where
  "strip s = rev (dropWhile isspace (rev (dropWhile isspace s)))"

text \<open>\<open>slice_mid a b s\<close> is the slice \<open>s[a:-b]\<close> for \<open>b > 0\<close>.\<close>

definition slice_mid :: "nat \<Rightarrow> nat \<Rightarrow> string \<Rightarrow> string" where
  "slice_mid a b s = drop a (take (length s - b) s)"

definition digit_val :: "char \<Rightarrow> nat" where
  "digit_val c = of_char c - 48"

text \<open>\<open>int(s)\<close> on a non-empty string of decimal digits.\<close>

definition int_of_digits :: "string \<Rightarrow> nat" where
  "int_of_digits s = foldl (\<lambda>a c. 10 * a + digit_val c) 0 s"

text \<open>
  The values a field of a job dictionary can hold: what \<open>json.loads\<close> produces, and the
  \<open>datetime\<close> that \<open>parse_date_string\<close> puts in its place.  A JSON float is represented by
  an integer with the same truth value.
\<close>

type_synonym datetime = int

datatype pyval =
    PNone
  | PBool bool
  | PInt int
  | PStr string
  | PList "pyval list"
  | PDict "(string \<times> pyval) list"
  | PDate datetime

text \<open>Python's truth value testing (\<open>if x\<close>, \<open>not x\<close>, \<open>all([...])\<close>).\<close>

fun truthy :: "pyval \<Rightarrow> bool" where
  "truthy PNone = False"
| "truthy (PBool b) = b"
| "truthy (PInt n) = (n \<noteq> 0)"
| "truthy (PStr s) = (s \<noteq> [])"
| "truthy (PList xs) = (xs \<noteq> [])"
| "truthy (PDict d) = (d \<noteq> [])"
| "truthy (PDate t) = True"

text \<open>\<open>d.get(k)\<close> and \<open>d[k] = v\<close> on a dictionary kept as an association list.\<close>

definition dict_get :: "(string \<times> pyval) list \<Rightarrow> string \<Rightarrow> pyval" where
  "dict_get d k = (case map_of d k of Some v \<Rightarrow> v | None \<Rightarrow> PNone)"

fun dict_set :: "(string \<times> pyval) list \<Rightarrow> string \<Rightarrow> pyval \<Rightarrow> (string \<times> pyval) list" where
  "dict_set [] k v = [(k, v)]"
| "dict_set ((k', v') # d) k v = (if k' = k then (k, v) # d else (k', v') # dict_set d k v)"

datatype py_exc = ValueError | TypeError | OverflowError | AttributeError

section \<open>Data model\<close>

text \<open>The dictionary \<open>extracted_data\<close> of \<open>_parse_job_page\<close>: six fixed keys.\<close>

record job_data =
  job_title :: pyval
  job_description :: pyval
  job_location :: pyval
  apply_url :: pyval
  company_image :: pyval
  date_posted :: pyval

text \<open>
  What the scraper reads from an element that \<open>select_one\<close> found:
  \<open>get_text(strip=True)\<close>, \<open>get_text(separator='\n', strip=True)\<close> and the attributes
  (\<open>href\<close>, \<open>src\<close>).
\<close>

record element =
  get_text_strip :: string
  get_text_lines :: string
  attrs :: "(string \<times> string) list"

text \<open>The components of \<open>urlparse(u)\<close> that the scraper reads.\<close>

record parsed_url =
  netloc :: string
  path :: string
  query :: string

text \<open>
  The three outcomes of \<open>_get_selenium_driver\<close> when no driver exists yet: the driver is
  created; \<open>uc.Chrome\<close> (or the options before it) raises; or the driver is created and the
  script run on it raises, in which case \<open>self.driver\<close> is already set.
\<close>

datatype driver_setup = DriverReady | ChromeFailed | ScriptFailed

text \<open>The requests the scraper sends to the outside world, in order.\<close>

datatype event =
    StaticGet string
  | ChromeStart
  | DriverGet string
  | OllamaChat string
  | ApiPost job_data

text \<open>
  The outside world and the libraries.  A network collaborator answers as a function of the
  history of requests so far, so that two requests for the same URL may be answered
  differently.  \<open>None\<close> from \<open>static_get\<close> is a \<open>RequestException\<close>, from \<open>driver_get\<close> any
  exception of the browser, from \<open>ollama_chat\<close> a failed request or a response without
  \<open>message.content\<close>, from \<open>json_loads\<close> a decoding error, from \<open>strptime\<close> a
  \<open>ValueError\<close>.  \<open>None\<close> from \<open>urljoin\<close> and from \<open>urlparse\<close> is the \<open>ValueError\<close> that
  \<open>urllib.parse\<close> raises on a malformed URL, such as \<open>http://[x/jobs\<close>, whose host opens a
  bracket and does not close it.
\<close>

record env =
  static_get :: "event list \<Rightarrow> string \<Rightarrow> string option"
  chrome_start :: "event list \<Rightarrow> driver_setup"
  driver_get :: "event list \<Rightarrow> string \<Rightarrow> string option"
  ollama_chat :: "event list \<Rightarrow> string \<Rightarrow> string \<Rightarrow> string option"
  api_post :: "event list \<Rightarrow> job_data \<Rightarrow> bool"
  pydantic_ok :: "job_data \<Rightarrow> bool"
  clock :: "event list \<Rightarrow> datetime"
  json_loads :: "string \<Rightarrow> pyval option"
  strptime :: "string \<Rightarrow> string \<Rightarrow> datetime option"
  urljoin :: "string \<Rightarrow> string \<Rightarrow> string option"
  urlparse :: "string \<Rightarrow> parsed_url option"
  select_one :: "string \<Rightarrow> string \<Rightarrow> element option"
  anchor_hrefs :: "string \<Rightarrow> string list"
  urls_json :: "string list option"

section \<open>Date parsing (\<open>parse_date_string\<close>)\<close>

text \<open>
  A \<open>datetime\<close> is the number of microseconds since 0001-01-01T00:00:00, the least value
  of the type; \<open>datetime_max\<close> is 9999-12-31T23:59:59.999999.
\<close>

definition us_per_day :: int where
  "us_per_day = 86400000000"

definition datetime_max :: datetime where
  "datetime_max = 3652059 * us_per_day - 1"

text \<open>
  \<open>timedelta(days=d, hours=h, weeks=w)\<close> in microseconds; the constructor raises
  \<open>OverflowError\<close> beyond 999999999 days.
\<close>

definition timedelta :: "int \<Rightarrow> int \<Rightarrow> int \<Rightarrow> py_exc + int" where
  "timedelta d h w =
     (let us = (d + 7 * w) * us_per_day + h * 3600000000
      in if 999999999 < \<bar>us div us_per_day\<bar> then Inl OverflowError else Inr us)"

text \<open>\<open>now - delta\<close>, which raises \<open>OverflowError\<close> outside the range of \<open>datetime\<close>.\<close>

definition datetime_sub :: "datetime \<Rightarrow> py_exc + int \<Rightarrow> py_exc + datetime option" where
  "datetime_sub now delta =
     (case delta of
        Inl e \<Rightarrow> Inl e
      | Inr us \<Rightarrow>
          if now - us < 0 \<or> datetime_max < now - us then Inl OverflowError
          else Inr (Some (now - us)))"

definition date_formats :: "string list" where
  "date_formats = [''%Y-%m-%d'', ''%B %d, %Y'', ''%d %B %Y'', ''%m/%d/%Y'', ''%d/%m/%Y'']"

text \<open>The loop over the formats: the first one that \<open>strptime\<close> accepts wins.\<close>

fun try_formats :: "env \<Rightarrow> string \<Rightarrow> string list \<Rightarrow> datetime option" where
  "try_formats e s [] = None"
| "try_formats e s (fmt # fmts) =
     (case strptime e s fmt of
        Some d \<Rightarrow> Some d
      | None \<Rightarrow> try_formats e s fmts)"

text \<open>
  The pattern \<open>(\d+)\s+(day|hour|week|month|year)s?\s+ago\<close> under \<open>re.IGNORECASE\<close>.
  \<open>match_time_ago\<close> matches it at the start of a string and returns the two groups;
  \<open>search_time_ago\<close> is \<open>re.search\<close>: the leftmost position where it matches.  Every
  repetition is followed by a character outside its class, so the greedy match is the only
  one.
\<close>

definition time_units :: "string list" where
  "time_units = [''day'', ''hour'', ''week'', ''month'', ''year'']"

fun match_unit :: "string list \<Rightarrow> string \<Rightarrow> (string \<times> string) option" where
  "match_unit [] s = None"
| "match_unit (u # us) s =
     (if startswith (lower s) u then Some (take (length u) s, drop (length u) s)
      else match_unit us s)"

definition match_time_ago :: "string \<Rightarrow> (string \<times> string) option" where
  "match_time_ago s =
     (let num = takeWhile isdigit s;
          r1 = dropWhile isdigit s;
          r2 = dropWhile isspace r1
      in if num = [] \<or> takeWhile isspace r1 = [] then None
         else case match_unit time_units r2 of
                None \<Rightarrow> None
              | Some (unit, r3) \<Rightarrow>
                  (let r4 = (if startswith (lower r3) ''s'' then tl r3 else r3);
                       r5 = dropWhile isspace r4
                   in if takeWhile isspace r4 \<noteq> [] \<and> startswith (lower r5) ''ago''
                      then Some (num, unit) else None))"

fun search_time_ago :: "string \<Rightarrow> (string \<times> string) option" where
  "search_time_ago [] = None"
| "search_time_ago (c # cs) =
     (case match_time_ago (c # cs) of
        Some g \<Rightarrow> Some g
      | None \<Rightarrow> search_time_ago cs)"

text \<open>
  The body of the \<open>try\<close> block on a string: \<open>Inr (Some d)\<close> is \<open>return d\<close>, \<open>Inr None\<close> is
  reaching the end of the block, \<open>Inl e\<close> is an exception that escapes the inner handler.
\<close>

definition parse_date_try :: "env \<Rightarrow> datetime \<Rightarrow> string \<Rightarrow> py_exc + datetime option" where
  "parse_date_try e now date_str =
     (case try_formats e date_str date_formats of
        Some d \<Rightarrow> Inr (Some d)
      | None \<Rightarrow>
          (case search_time_ago date_str of
             None \<Rightarrow> Inr None
           | Some (g1, g2) \<Rightarrow>
               (let num = int (int_of_digits g1); unit = lower g2
                in if unit = ''day'' then datetime_sub now (timedelta num 0 0)
                   else if unit = ''hour'' then datetime_sub now (timedelta 0 num 0)
                   else if unit = ''week'' then datetime_sub now (timedelta 0 0 num)
                   else if unit = ''month'' then datetime_sub now (timedelta (num * 30) 0 0)
                   else if unit = ''year'' then datetime_sub now (timedelta (num * 365) 0 0)
                   else Inr None)))"

text \<open>
  \<open>parse_date_string\<close>.  The argument is whatever the oracle put under \<open>date_posted\<close>;
  \<open>strptime\<close> raises \<open>TypeError\<close> on a value that is not a string.  \<open>now\<close> is what
  \<open>datetime.now()\<close> returns.  The result is \<open>Inr\<close> of the returned value, or \<open>Inl\<close> of an
  exception that leaves the function.
\<close>

definition parse_date_string :: "env \<Rightarrow> datetime \<Rightarrow> pyval \<Rightarrow> py_exc + datetime option" where
  "parse_date_string e now date_str =
     (if \<not> truthy date_str then Inr None
      else case (case date_str of
                   PStr s \<Rightarrow> parse_date_try e now s
                 | _ \<Rightarrow> Inl TypeError) of
             Inr (Some d) \<Rightarrow> Inr (Some d)
           | Inr None \<Rightarrow> Inr None
           | Inl exc \<Rightarrow> Inr None)"

section \<open>The scraper's state\<close>

text \<open>
  The attributes of \<open>EnhancedJobScraper\<close> that the crawl reads and writes.  \<open>driver\<close> says
  whether \<open>self.driver\<close> is set.  \<open>history\<close> is not an attribute: it is the list of requests
  sent so far, which the collaborators of \<open>env\<close> answer from.
\<close>

record scraper =
  use_selenium :: bool
  driver :: bool
  scraped_jobs :: "job_data list"
  visited_urls :: "string set"
  queue :: "string list"
  history :: "event list"

definition max_pages_per_domain :: nat where
  "max_pages_per_domain = 30"

section \<open>The oracle (\<open>get_job_details_with_ollama\<close>)\<close>

text \<open>The removal of a Markdown fence around the answer.\<close>

definition strip_fences :: "string \<Rightarrow> string" where
  "strip_fences content_str =
     (if startswith content_str ''```json'' \<and> endswith content_str ''```''
      then strip (slice_mid 7 3 content_str)
      else if startswith content_str ''```'' \<and> endswith content_str ''```''
      then strip (slice_mid 3 3 content_str)
      else content_str)"

text \<open>
  \<open># Make apply_url absolute\<close>: \<open>startswith\<close> on a value that is true and not a string
  raises \<open>AttributeError\<close>, and \<open>urljoin\<close> may raise \<open>ValueError\<close>.
\<close>

definition make_apply_url_absolute ::
  "env \<Rightarrow> string \<Rightarrow> (string \<times> pyval) list \<Rightarrow> py_exc + (string \<times> pyval) list" where
  "make_apply_url_absolute e url parsed_data =
     (if truthy (dict_get parsed_data ''apply_url'') then
        (case dict_get parsed_data ''apply_url'' of
           PStr a \<Rightarrow>
             if \<not> (startswith a ''http://'' \<or> startswith a ''https://'')
             then (case urljoin e url a of
                     None \<Rightarrow> Inl ValueError
                   | Some joined \<Rightarrow> Inr (dict_set parsed_data ''apply_url'' (PStr joined)))
             else Inr parsed_data
         | _ \<Rightarrow> Inl AttributeError)
      else Inr parsed_data)"

text \<open>\<open># Parse date if provided\<close>.\<close>

definition parse_date_posted ::
  "env \<Rightarrow> datetime \<Rightarrow> (string \<times> pyval) list \<Rightarrow> py_exc + (string \<times> pyval) list" where
  "parse_date_posted e now parsed_data =
     (if truthy (dict_get parsed_data ''date_posted'') then
        (case parse_date_string e now (dict_get parsed_data ''date_posted'') of
           Inl exc \<Rightarrow> Inl exc
         | Inr None \<Rightarrow> Inr (dict_set parsed_data ''date_posted'' PNone)
         | Inr (Some d) \<Rightarrow> Inr (dict_set parsed_data ''date_posted'' (PDate d)))
      else Inr parsed_data)"

text \<open>
  The whole function: every exception inside the \<open>try\<close> block, and an answer that is not a
  JSON object (it has no \<open>get\<close>), give the empty dictionary.
\<close>

definition get_job_details_with_ollama ::
  "env \<Rightarrow> string \<Rightarrow> string \<Rightarrow> scraper \<Rightarrow> (string \<times> pyval) list \<times> scraper" where
  "get_job_details_with_ollama e html_content url st =
     (let truncated_html = take 8000 html_content;
          st1 = st\<lparr>history := history st @ [OllamaChat url]\<rparr>
      in case ollama_chat e (history st) url truncated_html of
           None \<Rightarrow> ([], st1)
         | Some content_str \<Rightarrow>
             (case json_loads e (strip_fences content_str) of
                Some (PDict parsed_data) \<Rightarrow>
                  (case make_apply_url_absolute e url parsed_data of
                     Inl exc \<Rightarrow> ([], st1)
                   | Inr with_url \<Rightarrow>
                       (case parse_date_posted e (clock e (history st1)) with_url of
                          Inl exc \<Rightarrow> ([], st1)
                        | Inr with_date \<Rightarrow> (with_date, st1)))
              | _ \<Rightarrow> ([], st1)))"

section \<open>The sink (\<open>push_job_to_api\<close>)\<close>

text \<open>
  A record that the schema \<open>JobPostingAPI\<close> rejects raises before anything is sent; otherwise
  one POST is made and its outcome returned.  Both handlers return \<open>False\<close>.
\<close>

definition push_job_to_api :: "env \<Rightarrow> job_data \<Rightarrow> scraper \<Rightarrow> bool \<times> scraper" where
  "push_job_to_api e job st =
     (if \<not> pydantic_ok e job then (False, st)
      else (api_post e (history st) job, st\<lparr>history := history st @ [ApiPost job]\<rparr>))"

section \<open>Fetching a page\<close>

definition get_selenium_driver :: "env \<Rightarrow> scraper \<Rightarrow> bool \<times> scraper" where
  "get_selenium_driver e st =
     (if \<not> driver st then
        (let st1 = st\<lparr>history := history st @ [ChromeStart]\<rparr>
         in case chrome_start e (history st) of
              DriverReady \<Rightarrow> (True, st1\<lparr>driver := True\<rparr>)
            | ChromeFailed \<Rightarrow> (False, st1\<lparr>use_selenium := False\<rparr>)
            | ScriptFailed \<Rightarrow> (True, st1\<lparr>driver := True, use_selenium := False\<rparr>))
      else (True, st))"

definition fetch_page_requests :: "env \<Rightarrow> string \<Rightarrow> scraper \<Rightarrow> string option \<times> scraper" where
  "fetch_page_requests e url st =
     (static_get e (history st) url, st\<lparr>history := history st @ [StaticGet url]\<rparr>)"

definition fetch_page_selenium :: "env \<Rightarrow> string \<Rightarrow> scraper \<Rightarrow> string option \<times> scraper" where
  "fetch_page_selenium e url st =
     (case get_selenium_driver e st of
        (drv, st1) \<Rightarrow>
          if \<not> drv then (None, st1)
          else (driver_get e (history st1) url,
                st1\<lparr>history := history st1 @ [DriverGet url]\<rparr>))"

text \<open>The truth value of an \<open>Optional[str]\<close>: \<open>None\<close> and the empty string are false.\<close>

definition str_truthy :: "string option \<Rightarrow> bool" where
  "str_truthy x = (case x of None \<Rightarrow> False | Some s \<Rightarrow> s \<noteq> [])"

text \<open>\<open>_fetch_page\<close>: the static tier, then the two places that call the rendered tier.\<close>

definition fetch_page :: "env \<Rightarrow> string \<Rightarrow> scraper \<Rightarrow> string option \<times> scraper" where
  "fetch_page e url st =
     (case fetch_page_requests e url st of
        (requests_content, st1) \<Rightarrow>
          (case (if \<not> str_truthy requests_content \<and> use_selenium st1
                 then fetch_page_selenium e url st1
                 else (requests_content, st1)) of
             (html_content, st2) \<Rightarrow>
               (case html_content of
                  None \<Rightarrow> (html_content, st2)
                | Some h \<Rightarrow>
                    if h \<noteq> [] \<and> use_selenium st2 \<and>
                       (length h < 1000 \<or> str_in ''loading'' (lower h))
                    then
                      (case fetch_page_selenium e url st2 of
                         (selenium_content, st3) \<Rightarrow>
                           (case selenium_content of
                              None \<Rightarrow> (html_content, st3)
                            | Some s \<Rightarrow>
                                if s \<noteq> [] \<and> length h < length s then (Some s, st3)
                                else (html_content, st3)))
                    else (html_content, st2))))"

section \<open>Link discovery (\<open>_extract_links\<close>)\<close>

text \<open>
  The three tests on a link.  Under \<open>re.IGNORECASE\<close> a lower-case pattern is searched in
  the lower-cased text.
\<close>

definition job_path_patterns :: "string list" where
  "job_path_patterns =
     [''/job'', ''/jobs'', ''/careers'', ''/apply'', ''/view'', ''/listing'', ''/posting'',
      ''/opportunities'']"

definition job_path_match :: "string \<Rightarrow> bool" where
  "job_path_match p = list_ex (\<lambda>pat. str_in pat (lower p)) job_path_patterns"

text \<open>\<open>key_digit_in k s\<close>: the key \<open>k\<close> occurs in \<open>s\<close> followed by a digit (\<open>k\d+\<close>).\<close>

fun key_digit_in :: "string \<Rightarrow> string \<Rightarrow> bool" where
  "key_digit_in k [] = False"
| "key_digit_in k (c # cs) =
     ((startswith (c # cs) k \<and>
       (case drop (length k) (c # cs) of [] \<Rightarrow> False | d # ds \<Rightarrow> isdigit d))
      \<or> key_digit_in k cs)"

definition pagination_keys :: "string list" where
  "pagination_keys = [''page='', ''start='', ''offset='', ''p='']"

definition pagination_match :: "string \<Rightarrow> bool" where
  "pagination_match q = list_ex (\<lambda>k. key_digit_in k (lower q)) pagination_keys"

definition link_keywords :: "string list" where
  "link_keywords = [''job'', ''career'', ''hiring'', ''work'', ''position'']"

definition keyword_match :: "string \<Rightarrow> bool" where
  "keyword_match full_url = list_ex (\<lambda>keyword. str_in keyword (lower full_url)) link_keywords"

text \<open>
  The loop over the anchors that carry an \<open>href\<close>, in document order; \<open>links\<close> is the list
  built so far.  \<open>urljoin\<close> and \<open>urlparse\<close> are called outside any \<open>try\<close>: when one of them
  raises, the exception leaves the loop and the function (\<open>Inl\<close>).
\<close>

fun extract_links_loop ::
  "env \<Rightarrow> string set \<Rightarrow> string \<Rightarrow> string \<Rightarrow> string list \<Rightarrow> string list \<Rightarrow>
   py_exc + string list" where
  "extract_links_loop e visited base_url base_domain [] links = Inr links"
| "extract_links_loop e visited base_url base_domain (href # hrefs) links =
     (case urljoin e base_url href of
        None \<Rightarrow> Inl ValueError
      | Some full_url \<Rightarrow>
          (case urlparse e full_url of
             None \<Rightarrow> Inl ValueError
           | Some parsed \<Rightarrow>
               extract_links_loop e visited base_url base_domain hrefs
                 (if netloc parsed = base_domain \<and> full_url \<notin> visited then
                    (if job_path_match (path parsed) then links @ [full_url]
                     else if pagination_match (query parsed) then links @ [full_url]
                     else if keyword_match full_url then links @ [full_url]
                     else links)
                  else links)))"

definition extract_links ::
  "env \<Rightarrow> string \<Rightarrow> string \<Rightarrow> scraper \<Rightarrow> py_exc + string list" where
  "extract_links e html_content base_url st =
     (case urlparse e base_url of
        None \<Rightarrow> Inl ValueError
      | Some parsed_base \<Rightarrow>
          (case extract_links_loop e (visited_urls st) base_url (netloc parsed_base)
                  (anchor_hrefs e html_content) [] of
             Inl exc \<Rightarrow> Inl exc
           | Inr links \<Rightarrow> Inr (take 20 links)))"

section \<open>Field extraction (\<open>_parse_job_page\<close>)\<close>

definition title_selectors :: "string list" where
  "title_selectors =
     [''h1[class*=\"title\"]'', ''h1[class*=\"job\"]'', ''h1[class*=\"position\"]'',
      ''h2[class*=\"title\"]'', ''h2[class*=\"job\"]'', ''h2[class*=\"position\"]'',
      ''.job-title'', ''.position-title'', ''.title'', ''h1'', ''h2'']"

definition desc_selectors :: "string list" where
  "desc_selectors =
     [''[class*=\"description\"]'', ''[class*=\"job-description\"]'', ''[class*=\"content\"]'',
      ''[class*=\"details\"]'', ''[class*=\"requirements\"]'', ''.description'', ''.job-content'']"

definition location_selectors :: "string list" where
  "location_selectors =
     [''[class*=\"location\"]'', ''[class*=\"address\"]'', ''[class*=\"remote\"]'',
      ''.location'', ''.job-location'', ''.address'']"

definition apply_selectors :: "string list" where
  "apply_selectors =
     [''a[href*=\"apply\"]'', ''a[class*=\"apply\"]'', ''a[class*=\"button\"]'',
      ''.apply-btn'', ''.apply-link'', ''.job-apply'']"

definition img_selectors :: "string list" where
  "img_selectors =
     [''img[src*=\"logo\"]'', ''img[class*=\"logo\"]'', ''img[class*=\"company\"]'',
      ''.company-logo img'', ''.logo img'']"

text \<open>
  The selector loops.  \<open>soup\<close> is \<open>select_one\<close> on the parsed page.  A found element is
  always true; its text or attribute decides.  In the loops over the apply link and the
  image, \<open>join\<close> is \<open>urljoin\<close> on the page URL, called outside any \<open>try\<close>: when it raises,
  the exception leaves the loop and \<open>_parse_job_page\<close>.
\<close>

fun first_text :: "(string \<Rightarrow> element option) \<Rightarrow> string list \<Rightarrow> pyval" where
  "first_text soup [] = PNone"
| "first_text soup (selector # selectors) =
     (case soup selector of
        None \<Rightarrow> first_text soup selectors
      | Some elem \<Rightarrow>
          if get_text_strip elem \<noteq> [] then PStr (get_text_strip elem)
          else first_text soup selectors)"

fun first_description :: "(string \<Rightarrow> element option) \<Rightarrow> string list \<Rightarrow> pyval" where
  "first_description soup [] = PNone"
| "first_description soup (selector # selectors) =
     (case soup selector of
        None \<Rightarrow> first_description soup selectors
      | Some desc_elem \<Rightarrow>
          if 100 < length (get_text_lines desc_elem)
          then PStr (take 2000 (get_text_lines desc_elem))
          else first_description soup selectors)"

fun first_attr ::
  "(string \<Rightarrow> element option) \<Rightarrow> (string \<Rightarrow> string option) \<Rightarrow> string \<Rightarrow> string list \<Rightarrow>
   py_exc + pyval" where
  "first_attr soup join a [] = Inr PNone"
| "first_attr soup join a (selector # selectors) =
     (case soup selector of
        None \<Rightarrow> first_attr soup join a selectors
      | Some elem \<Rightarrow>
          (case map_of (attrs elem) a of
             None \<Rightarrow> first_attr soup join a selectors
           | Some v \<Rightarrow>
               if v \<noteq> [] then
                 (case join v of None \<Rightarrow> Inl ValueError | Some joined \<Rightarrow> Inr (PStr joined))
               else first_attr soup join a selectors))"

text \<open>
  The structural pass, up to and including \<open># Default apply URL to current URL if not
  found\<close> and the company image.
\<close>

definition structural_pass :: "env \<Rightarrow> string \<Rightarrow> string \<Rightarrow> py_exc + job_data" where
  "structural_pass e html_content url =
     (let soup = select_one e html_content
      in case first_attr soup (urljoin e url) ''href'' apply_selectors of
           Inl exc \<Rightarrow> Inl exc
         | Inr found_apply \<Rightarrow>
             (case first_attr soup (urljoin e url) ''src'' img_selectors of
                Inl exc \<Rightarrow> Inl exc
              | Inr found_image \<Rightarrow>
                  Inr \<lparr>job_title = first_text soup title_selectors,
                       job_description = first_description soup desc_selectors,
                       job_location = first_text soup location_selectors,
                       apply_url = (if \<not> truthy found_apply then PStr url else found_apply),
                       company_image = found_image,
                       date_posted = PNone\<rparr>))"

text \<open>One round of the loop \<open>for key in extracted_data\<close>, and the loop over the six keys.\<close>

definition merge_field :: "pyval \<Rightarrow> (string \<times> pyval) list \<Rightarrow> string \<Rightarrow> pyval" where
  "merge_field current ollama_data key =
     (if \<not> truthy current \<and> truthy (dict_get ollama_data key)
      then dict_get ollama_data key else current)"

definition merge_ollama :: "job_data \<Rightarrow> (string \<times> pyval) list \<Rightarrow> job_data" where
  "merge_ollama extracted ollama_data =
     \<lparr>job_title = merge_field (job_title extracted) ollama_data ''job_title'',
      job_description = merge_field (job_description extracted) ollama_data ''job_description'',
      job_location = merge_field (job_location extracted) ollama_data ''job_location'',
      apply_url = merge_field (apply_url extracted) ollama_data ''apply_url'',
      company_image = merge_field (company_image extracted) ollama_data ''company_image'',
      date_posted = merge_field (date_posted extracted) ollama_data ''date_posted''\<rparr>"

text \<open>
  \<open>extracted_data\<close> after both passes, just before \<open># Final validation\<close>; or the exception
  that left the structural pass, before the oracle was asked.
\<close>

definition extract_candidate ::
  "env \<Rightarrow> string \<Rightarrow> string \<Rightarrow> scraper \<Rightarrow> (py_exc + job_data) \<times> scraper" where
  "extract_candidate e html_content url st =
     (case structural_pass e html_content url of
        Inl exc \<Rightarrow> (Inl exc, st)
      | Inr extracted \<Rightarrow>
          (let mandatory_missing =
                 (\<not> (truthy (job_title extracted) \<and> truthy (job_description extracted) \<and>
                     truthy (job_location extracted)))
           in if mandatory_missing then
                (case get_job_details_with_ollama e html_content url st of
                   (ollama_data, st1) \<Rightarrow> (Inr (merge_ollama extracted ollama_data), st1))
              else (Inr extracted, st)))"

definition parse_job_page ::
  "env \<Rightarrow> string \<Rightarrow> string \<Rightarrow> scraper \<Rightarrow> (py_exc + job_data option) \<times> scraper" where
  "parse_job_page e html_content url st =
     (case extract_candidate e html_content url st of
        (Inl exc, st1) \<Rightarrow> (Inl exc, st1)
      | (Inr extracted, st1) \<Rightarrow>
          if \<not> (truthy (job_title extracted) \<and> truthy (job_description extracted))
          then (Inr None, st1)
          else (Inr (Some extracted), st1))"

section \<open>The crawl (\<open>crawl\<close>)\<close>

text \<open>The loop \<open>for link in new_links\<close>.\<close>

fun enqueue_links :: "string list \<Rightarrow> scraper \<Rightarrow> scraper" where
  "enqueue_links [] st = st"
| "enqueue_links (link # links) st =
     enqueue_links links
       (if link \<notin> visited_urls st \<and> length (queue st) < 50
        then st\<lparr>visited_urls := insert link (visited_urls st), queue := queue st @ [link]\<rparr>
        else st)"

text \<open>
  The body of the \<open>while\<close> loop after \<open>current_url = self.queue.popleft()\<close>, up to the
  increment of \<open>pages_crawled\<close>.  The result is the state, \<open>successful_jobs\<close>, and the
  exception, if any, that left the body: \<open>_parse_job_page\<close> and \<open>_extract_links\<close> are called
  outside any \<open>try\<close>, so what they raise leaves the round where it is, with the record
  already pushed and the links not enqueued.
\<close>

definition crawl_page ::
  "env \<Rightarrow> string \<Rightarrow> scraper \<Rightarrow> nat \<Rightarrow> scraper \<times> nat \<times> py_exc option" where
  "crawl_page e current_url st successful_jobs =
     (case fetch_page e current_url st of
        (html_content, st1) \<Rightarrow>
          (case html_content of
             None \<Rightarrow> (st1, successful_jobs, None)
           | Some h \<Rightarrow>
               if h = [] then (st1, successful_jobs, None)
               else
                 (case parse_job_page e h current_url st1 of
                    (Inl exc, st2) \<Rightarrow> (st2, successful_jobs, Some exc)
                  | (Inr job, st2) \<Rightarrow>
                      (case (case job of
                               None \<Rightarrow> (st2, successful_jobs)
                             | Some job_data \<Rightarrow>
                                 (case push_job_to_api e job_data st2 of
                                    (pushed, st3) \<Rightarrow>
                                      if pushed
                                      then (st3\<lparr>scraped_jobs := scraped_jobs st3 @ [job_data]\<rparr>,
                                            successful_jobs + 1)
                                      else (st3, successful_jobs))) of
                         (st4, jobs) \<Rightarrow>
                           (case extract_links e h current_url st4 of
                              Inl exc \<Rightarrow> (st4, jobs, Some exc)
                            | Inr new_links \<Rightarrow> (enqueue_links new_links st4, jobs, None))))))"

text \<open>
  The \<open>while\<close> loop of one domain pass.  The result is the final state, \<open>pages_crawled\<close>,
  \<open>successful_jobs\<close>, and the exception that left the loop, if one did: the loop has no
  handler, so a round that raises ends the loop before \<open>pages_crawled += 1\<close>.
\<close>

function crawl_loop ::
  "env \<Rightarrow> scraper \<Rightarrow> nat \<Rightarrow> nat \<Rightarrow> scraper \<times> nat \<times> nat \<times> py_exc option" where
  "crawl_loop e st pages_crawled successful_jobs =
     (case queue st of
        [] \<Rightarrow> (st, pages_crawled, successful_jobs, None)
      | current_url # rest \<Rightarrow>
          if pages_crawled < max_pages_per_domain then
            (case crawl_page e current_url (st\<lparr>queue := rest\<rparr>) successful_jobs of
               (st', jobs, None) \<Rightarrow> crawl_loop e st' (pages_crawled + 1) jobs
             | (st', jobs, Some exc) \<Rightarrow> (st', pages_crawled, jobs, Some exc))
          else (st, pages_crawled, successful_jobs, None))"
  by pat_completeness auto
termination
  by (relation "measure (\<lambda>(e, st, pages_crawled, jobs). max_pages_per_domain - pages_crawled)")
     auto

declare crawl_loop.simps [simp del]

text \<open>
  One round of \<open>for start_url in start_urls\<close>.  \<open>urlparse(start_url)\<close> comes first and is not
  guarded either.
\<close>

definition crawl_domain ::
  "env \<Rightarrow> string \<Rightarrow> scraper \<Rightarrow> scraper \<times> nat \<times> nat \<times> py_exc option" where
  "crawl_domain e start_url st =
     (case urlparse e start_url of
        None \<Rightarrow> (st, 0, 0, Some ValueError)
      | Some parsed \<Rightarrow>
          crawl_loop e (st\<lparr>queue := [start_url], visited_urls := {start_url}\<rparr>) 0 0)"

text \<open>The loop over the seeds: an exception that leaves a pass leaves \<open>crawl\<close>.\<close>

fun crawl_domains :: "env \<Rightarrow> string list \<Rightarrow> scraper \<Rightarrow> scraper \<times> py_exc option" where
  "crawl_domains e [] st = (st, None)"
| "crawl_domains e (start_url # start_urls) st =
     (case crawl_domain e start_url st of
        (st', pages_crawled, successful_jobs, None) \<Rightarrow> crawl_domains e start_urls st'
      | (st', pages_crawled, successful_jobs, Some exc) \<Rightarrow> (st', Some exc))"

definition load_start_urls :: "env \<Rightarrow> string list" where
  "load_start_urls e = (case urls_json e of None \<Rightarrow> [] | Some urls \<Rightarrow> urls)"

definition crawl :: "env \<Rightarrow> scraper \<Rightarrow> scraper \<times> py_exc option" where
  "crawl e st =
     (let start_urls = load_start_urls e
      in if start_urls = [] then (st, None) else crawl_domains e start_urls st)"

section \<open>What a run is observed by\<close>

text \<open>
  \<open>crawl_iter n\<close> is \<open>crawl_loop\<close> stopped after at most \<open>n\<close> rounds: the state at the head of
  the loop after \<open>n\<close> rounds, or the final state if the loop ended earlier, by its test or
  by an exception.
\<close>

fun crawl_iter ::
  "nat \<Rightarrow> env \<Rightarrow> scraper \<Rightarrow> nat \<Rightarrow> nat \<Rightarrow> scraper \<times> nat \<times> nat \<times> py_exc option" where
  "crawl_iter 0 e st pages_crawled successful_jobs = (st, pages_crawled, successful_jobs, None)"
| "crawl_iter (Suc n) e st pages_crawled successful_jobs =
     (case queue st of
        [] \<Rightarrow> (st, pages_crawled, successful_jobs, None)
      | current_url # rest \<Rightarrow>
          if pages_crawled < max_pages_per_domain then
            (case crawl_page e current_url (st\<lparr>queue := rest\<rparr>) successful_jobs of
               (st', jobs, None) \<Rightarrow> crawl_iter n e st' (pages_crawled + 1) jobs
             | (st', jobs, Some exc) \<Rightarrow> (st', pages_crawled, jobs, Some exc))
          else (st, pages_crawled, successful_jobs, None))"

text \<open>
  The URLs handed to \<open>_fetch_page\<close> (each call starts with one static request), the URLs
  handed to the browser, and the records sent to the ingestion endpoint, in order.
\<close>

fun fetched :: "event list \<Rightarrow> string list" where
  "fetched [] = []"
| "fetched (StaticGet u # evs) = u # fetched evs"
| "fetched (ev # evs) = fetched evs"

fun rendered :: "event list \<Rightarrow> string list" where
  "rendered [] = []"
| "rendered (DriverGet u # evs) = u # rendered evs"
| "rendered (ev # evs) = rendered evs"

fun posted :: "event list \<Rightarrow> job_data list" where
  "posted [] = []"
| "posted (ApiPost j # evs) = j # posted evs"
| "posted (ev # evs) = posted evs"

text \<open>A record with both mandatory fields: title and description are true values.\<close>

definition complete_job :: "job_data \<Rightarrow> bool" where
  "complete_job j = (truthy (job_title j) \<and> truthy (job_description j))"

text \<open>Two states that differ in nothing the crawl observes but the browser.\<close>

definition same_crawl_state :: "scraper \<Rightarrow> scraper \<Rightarrow> bool" where
  "same_crawl_state st st' =
     (fetched (history st') = fetched (history st) \<and>
      posted (history st') = posted (history st) \<and>
      scraped_jobs st' = scraped_jobs st \<and> queue st' = queue st \<and>
      visited_urls st' = visited_urls st)"

text \<open>
  The links of section 4.3 of the specification: on the host of the base URL, not visited,
  and matching one of the three rules.
\<close>

definition link_accepted :: "env \<Rightarrow> string set \<Rightarrow> string \<Rightarrow> string \<Rightarrow> bool" where
  "link_accepted e visited base_url full_url =
     (case (urlparse e full_url, urlparse e base_url) of
        (Some parsed, Some parsed_base) \<Rightarrow>
          netloc parsed = netloc parsed_base \<and> full_url \<notin> visited \<and>
          (job_path_match (path parsed) \<or> pagination_match (query parsed) \<or>
           keyword_match full_url)
      | _ \<Rightarrow> False)"

section \<open>Sample collaborators\<close>

text \<open>
  Stand-ins for the libraries and a few small sites, on which the model is run.  The
  theorems below hold for every \<open>env\<close>; these are the ones they are instantiated with.
\<close>

subsection \<open>URLs\<close>

text \<open>
  \<open>scheme://netloc/path?query#fragment\<close>, without the corner cases of RFC 3986.  As in
  \<open>urllib.parse\<close>, a \<open>netloc\<close> with one of the two brackets and not the other is a
  \<open>ValueError\<close>, and \<open>urljoin\<close> parses both of its arguments unless one of them is empty.
\<close>

fun after_scheme :: "string \<Rightarrow> string option" where
  "after_scheme [] = None"
| "after_scheme (c # cs) =
     (if startswith (c # cs) ''://'' then Some (drop 3 (c # cs)) else after_scheme cs)"

definition url_parts :: "string \<Rightarrow> parsed_url" where
  "url_parts u =
     (let u1 = takeWhile (\<lambda>c. c \<noteq> CHR ''#'') u;
          r = (case after_scheme u1 of None \<Rightarrow> u1 | Some r \<Rightarrow> r);
          nl = (case after_scheme u1 of
                  None \<Rightarrow> []
                | Some r \<Rightarrow> takeWhile (\<lambda>c. c \<noteq> CHR ''/'' \<and> c \<noteq> CHR ''?'') r);
          rest = drop (length nl) r
      in \<lparr>netloc = nl,
          path = takeWhile (\<lambda>c. c \<noteq> CHR ''?'') rest,
          query = drop 1 (dropWhile (\<lambda>c. c \<noteq> CHR ''?'') rest)\<rparr>)"

definition bad_netloc :: "string \<Rightarrow> bool" where
  "bad_netloc nl = ((CHR ''['' \<in> set nl) \<noteq> (CHR '']'' \<in> set nl))"

definition simple_urlparse :: "string \<Rightarrow> parsed_url option" where
  "simple_urlparse u =
     (if bad_netloc (netloc (url_parts u)) then None else Some (url_parts u))"

definition url_origin :: "string \<Rightarrow> string" where
  "url_origin u =
     (case after_scheme u of
        None \<Rightarrow> []
      | Some r \<Rightarrow> take (length u - length r) u @ netloc (url_parts u))"

definition simple_urljoin :: "string \<Rightarrow> string \<Rightarrow> string option" where
  "simple_urljoin base href =
     (if base = [] then Some href
      else if href = [] then Some base
      else if bad_netloc (netloc (url_parts base)) \<or> bad_netloc (netloc (url_parts href))
      then None
      else if after_scheme href \<noteq> None then Some href
      else if startswith href ''/'' then Some (url_origin base @ href)
      else Some (url_origin base
                 @ rev (dropWhile (\<lambda>c. c \<noteq> CHR ''/'') (rev (path (url_parts base))))
                 @ href))"

subsection \<open>\<open>datetime.strptime\<close> on the five formats\<close>

text \<open>
  A format is read as a list of items.  \<open>%m\<close> is \<open>1[0-2]|0[1-9]|[1-9]\<close>, \<open>%d\<close> is
  \<open>3[0-1]|[1-2]\d|0[1-9]|[1-9]| [1-9]\<close>, \<open>%Y\<close> is four digits, \<open>%B\<close> a full English month
  name, white space in the format is \<open>\s+\<close>, and letters match in either case.  Text left
  over and a day that the month does not have are a \<open>ValueError\<close>.
\<close>

datatype fmt_item = FYear | FMonth | FDay | FMonthName | FSpace | FLit char

definition format_items :: "(string \<times> fmt_item list) list" where
  "format_items =
     [(''%Y-%m-%d'', [FYear, FLit CHR ''-'', FMonth, FLit CHR ''-'', FDay]),
      (''%B %d, %Y'', [FMonthName, FSpace, FDay, FLit CHR '','', FSpace, FYear]),
      (''%d %B %Y'', [FDay, FSpace, FMonthName, FSpace, FYear]),
      (''%m/%d/%Y'', [FMonth, FLit CHR ''/'', FDay, FLit CHR ''/'', FYear]),
      (''%d/%m/%Y'', [FDay, FLit CHR ''/'', FMonth, FLit CHR ''/'', FYear])]"

definition read_year :: "string \<Rightarrow> (nat \<times> string) option" where
  "read_year s =
     (if 4 \<le> length s \<and> list_all isdigit (take 4 s)
      then Some (int_of_digits (take 4 s), drop 4 s) else None)"

text \<open>One or two digits with a value from 1 to \<open>hi\<close>, the two-digit reading first.\<close>

definition read_upto :: "nat \<Rightarrow> string \<Rightarrow> (nat \<times> string) option" where
  "read_upto hi s =
     (if 2 \<le> length s \<and> list_all isdigit (take 2 s) \<and>
         1 \<le> int_of_digits (take 2 s) \<and> int_of_digits (take 2 s) \<le> hi
      then Some (int_of_digits (take 2 s), drop 2 s)
      else if s \<noteq> [] \<and> isdigit (hd s) \<and> hd s \<noteq> CHR ''0''
      then Some (digit_val (hd s), tl s)
      else None)"

definition read_day :: "string \<Rightarrow> (nat \<times> string) option" where
  "read_day s =
     (case read_upto 31 s of
        Some r \<Rightarrow> Some r
      | None \<Rightarrow>
          if 2 \<le> length s \<and> hd s = CHR '' '' \<and> isdigit (hd (tl s)) \<and> hd (tl s) \<noteq> CHR ''0''
          then Some (digit_val (hd (tl s)), drop 2 s)
          else None)"

definition month_names :: "string list" where
  "month_names =
     [''january'', ''february'', ''march'', ''april'', ''may'', ''june'', ''july'', ''august'',
      ''september'', ''october'', ''november'', ''december'']"

fun read_month_name :: "nat \<Rightarrow> string list \<Rightarrow> string \<Rightarrow> (nat \<times> string) option" where
  "read_month_name i [] s = None"
| "read_month_name i (name # names) s =
     (if startswith (lower s) name then Some (i, drop (length name) s)
      else read_month_name (Suc i) names s)"

fun read_items :: "fmt_item list \<Rightarrow> string \<Rightarrow> nat \<times> nat \<times> nat \<Rightarrow> (nat \<times> nat \<times> nat) option" where
  "read_items [] s ymd = (if s = [] then Some ymd else None)"
| "read_items (FYear # items) s (y, m, d) =
     (case read_year s of None \<Rightarrow> None | Some (v, r) \<Rightarrow> read_items items r (v, m, d))"
| "read_items (FMonth # items) s (y, m, d) =
     (case read_upto 12 s of None \<Rightarrow> None | Some (v, r) \<Rightarrow> read_items items r (y, v, d))"
| "read_items (FDay # items) s (y, m, d) =
     (case read_day s of None \<Rightarrow> None | Some (v, r) \<Rightarrow> read_items items r (y, m, v))"
| "read_items (FMonthName # items) s (y, m, d) =
     (case read_month_name 1 month_names s of
        None \<Rightarrow> None
      | Some (v, r) \<Rightarrow> read_items items r (y, v, d))"
| "read_items (FSpace # items) s ymd =
     (if takeWhile isspace s = [] then None else read_items items (dropWhile isspace s) ymd)"
| "read_items (FLit c # items) s ymd =
     (if s \<noteq> [] \<and> lower_char (hd s) = lower_char c then read_items items (tl s) ymd
      else None)"

definition is_leap :: "nat \<Rightarrow> bool" where
  "is_leap y = (y mod 4 = 0 \<and> (y mod 400 = 0 \<or> y mod 100 \<noteq> 0))"

definition days_in_month :: "nat \<Rightarrow> nat \<Rightarrow> nat" where
  "days_in_month y m =
     (if m = 2 then (if is_leap y then 29 else 28)
      else if m = 4 \<or> m = 6 \<or> m = 9 \<or> m = 11 then 30 else 31)"

definition days_before_year :: "nat \<Rightarrow> nat" where
  "days_before_year y = 365 * (y - 1) + (y - 1) div 4 - (y - 1) div 100 + (y - 1) div 400"

definition datetime_of_date :: "nat \<Rightarrow> nat \<Rightarrow> nat \<Rightarrow> datetime" where
  "datetime_of_date y m d =
     int (days_before_year y + sum_list (map (days_in_month y) [1..<m]) + d - 1) * us_per_day"

definition strptime_model :: "string \<Rightarrow> string \<Rightarrow> datetime option" where
  "strptime_model s fmt =
     (case map_of format_items fmt of
        None \<Rightarrow> None
      | Some items \<Rightarrow>
          (case read_items items s (1900, 1, 1) of
             None \<Rightarrow> None
           | Some (y, m, d) \<Rightarrow>
               if 1 \<le> y \<and> d \<le> days_in_month y m then Some (datetime_of_date y m d)
               else None))"

subsection \<open>Environments\<close>

text \<open>Schema validation: the fields typed \<open>str\<close> hold strings, the optional ones may be \<open>None\<close>.\<close>

definition is_str :: "pyval \<Rightarrow> bool" where
  "is_str v = (case v of PStr s \<Rightarrow> True | _ \<Rightarrow> False)"

definition schema_ok :: "job_data \<Rightarrow> bool" where
  "schema_ok j =
     (is_str (job_title j) \<and> is_str (job_description j) \<and>
      (company_image j = PNone \<or> is_str (company_image j)) \<and>
      (case date_posted j of PNone \<Rightarrow> True | PDate d \<Rightarrow> True | _ \<Rightarrow> False))"

text \<open>Nothing answers: every request fails, and it is 2024-01-15T00:00:00.\<close>

definition offline_env :: env where
  "offline_env =
     \<lparr>static_get = (\<lambda>h u. None),
      chrome_start = (\<lambda>h. ChromeFailed),
      driver_get = (\<lambda>h u. None),
      ollama_chat = (\<lambda>h u t. None),
      api_post = (\<lambda>h j. False),
      pydantic_ok = schema_ok,
      clock = (\<lambda>h. datetime_of_date 2024 1 15),
      json_loads = (\<lambda>s. None),
      strptime = strptime_model,
      urljoin = simple_urljoin,
      urlparse = simple_urlparse,
      select_one = (\<lambda>h sel. None),
      anchor_hrefs = (\<lambda>h. []),
      urls_json = None\<rparr>"

text \<open>The scraper as \<open>__init__\<close> leaves it.\<close>

definition init_scraper :: "bool \<Rightarrow> scraper" where
  "init_scraper with_selenium =
     \<lparr>use_selenium = with_selenium, driver = False, scraped_jobs = [], visited_urls = {},
      queue = [], history = []\<rparr>"

subsection \<open>A site with one job posting\<close>

text \<open>
  The index page links to two postings, to another host, to a page that is not about jobs,
  and to the first posting again.  The first posting has a title, a description of 150
  characters and a location; the second cannot be fetched.
\<close>

definition index_html :: string where
  "index_html = ''<html>index</html>''"

definition job_html :: string where
  "job_html = ''<html>job one</html>''"

definition job_element :: "string \<Rightarrow> element option" where
  "job_element sel =
     (if sel = ''h1''
      then Some \<lparr>get_text_strip = ''Engineer'', get_text_lines = ''Engineer'', attrs = []\<rparr>
      else if sel = ''[class*=\"description\"]''
      then Some \<lparr>get_text_strip = replicate 150 CHR ''d'',
                 get_text_lines = replicate 150 CHR ''d'',
                 attrs = [(''class'', ''description'')]\<rparr>
      else if sel = ''[class*=\"location\"]''
      then Some \<lparr>get_text_strip = ''Remote'', get_text_lines = ''Remote'',
                 attrs = [(''class'', ''location'')]\<rparr>
      else None)"

definition site_env :: env where
  "site_env =
     offline_env
       \<lparr>static_get :=
          (\<lambda>h u. if u = ''https://example.com/jobs'' then Some index_html
                 else if u = ''https://example.com/jobs/1'' then Some job_html
                 else None),
        api_post := (\<lambda>h j. True),
        select_one := (\<lambda>html sel. if html = job_html then job_element sel else None),
        anchor_hrefs :=
          (\<lambda>html. if html = index_html
                   then [''/jobs/1'', ''/jobs/2'', ''https://other.org/jobs/3'', ''/about'',
                         ''/jobs/1'']
                   else []),
        urls_json := Some [''https://example.com/jobs'']\<rparr>"

text \<open>The record that the structural pass reads from the first posting.\<close>

definition sample_job :: job_data where
  "sample_job =
     \<lparr>job_title = PStr ''Engineer'',
      job_description = PStr (replicate 150 CHR ''d''),
      job_location = PStr ''Remote'',
      apply_url = PStr ''https://example.com/jobs/1'',
      company_image = PNone,
      date_posted = PNone\<rparr>"

text \<open>The same site when the ingestion endpoint rejects every record.\<close>

definition reject_env :: env where
  "reject_env = site_env\<lparr>api_post := (\<lambda>h j. False)\<rparr>"

text \<open>
  The same site when the first posting carries the link \<open>http://[x/jobs\<close>, on which
  \<open>urljoin\<close> raises.
\<close>

definition broken_env :: env where
  "broken_env =
     site_env
       \<lparr>anchor_hrefs :=
          (\<lambda>html. if html = index_html then [''/jobs/1'', ''/jobs/2'']
                   else if html = job_html then [''http://[x/jobs'']
                   else [])\<rparr>"

subsection \<open>A site that never ends\<close>


subsection \<open>A page that only the browser can load, and stays thin\<close>

definition render_env :: env where
  "render_env =
     offline_env
       \<lparr>chrome_start := (\<lambda>h. DriverReady),
        driver_get := (\<lambda>h u. Some ''<html>loading</html>'')\<rparr>"

subsection \<open>Pages that only the oracle can read\<close>

text \<open>The oracle's answer carries a relative apply URL.\<close>

definition relative_answer :: string where
  "relative_answer =
     ''{\"job_title\": \"Engineer\", \"job_description\": \"Builds things\", \"apply_url\": \"/apply/42\"}''"

definition relative_env :: env where
  "relative_env =
     offline_env
       \<lparr>ollama_chat := (\<lambda>h u t. Some relative_answer),
        json_loads :=
          (\<lambda>s. if s = relative_answer
                then Some (PDict [(''job_title'', PStr ''Engineer''),
                                  (''job_description'', PStr ''Builds things''),
                                  (''apply_url'', PStr ''/apply/42'')])
                else None)\<rparr>"

text \<open>The oracle's answer carries a description of 2001 characters.\<close>

definition long_answer :: string where
  "long_answer =
     ''{\"job_title\": \"Engineer\", \"job_description\": \"'' @ replicate 2001 CHR ''x'' @ ''\"}''"

definition long_env :: env where
  "long_env =
     offline_env
       \<lparr>static_get := (\<lambda>h u. Some ''<html>posting</html>''),
        ollama_chat := (\<lambda>h u t. Some long_answer),
        api_post := (\<lambda>h j. True),
        json_loads :=
          (\<lambda>s. if s = long_answer
                then Some (PDict [(''job_title'', PStr ''Engineer''),
                                  (''job_description'', PStr (replicate 2001 CHR ''x''))])
                else None),
        urls_json := Some [''https://example.com/jobs/9'']\<rparr>"

subsection \<open>States that the sample runs reach\<close>

text \<open>The state after the index page of the sample site has been processed.\<close>

definition site_after_index :: scraper where
  "site_after_index =
     \<lparr>use_selenium = False, driver = False, scraped_jobs = [],
      visited_urls = {''https://example.com/jobs/2'', ''https://example.com/jobs/1'',
                      ''https://example.com/jobs''},
      queue = [''https://example.com/jobs/1'', ''https://example.com/jobs/2''],
      history = [StaticGet ''https://example.com/jobs'', ChromeStart,
                 OllamaChat ''https://example.com/jobs'']\<rparr>"



text \<open>The state after a pass over a seed that cannot be fetched.\<close>

definition offline_after :: scraper where
  "offline_after =
     \<lparr>use_selenium = False, driver = False, scraped_jobs = [],
      visited_urls = {''https://example.com/jobs''}, queue = [],
      history = [StaticGet ''https://example.com/jobs'']\<rparr>"

text \<open>The record that the oracle's long answer leads to.\<close>

definition long_job :: job_data where
  "long_job =
     \<lparr>job_title = PStr ''Engineer'',
      job_description = PStr (replicate 2001 CHR ''x''),
      job_location = PNone,
      apply_url = PStr ''https://example.com/jobs/9'',
      company_image = PNone,
      date_posted = PNone\<rparr>"


text \<open>A page of the sample site that links to the same posting 25 times.\<close>

definition board_env :: env where
  "board_env = site_env\<lparr>anchor_hrefs := (\<lambda>html. replicate 25 ''/jobs/1'')\<rparr>"

section \<open>Properties of date parsing\<close>

lemma try_formats_none:
  "\<forall>fmt\<in>set fmts. strptime e s fmt = None \<Longrightarrow> try_formats e s fmts = None"
  by (induction fmts) auto

lemma sample_formats_fail:
  "\<forall>fmt\<in>set date_formats. strptime offline_env ''not a date'' fmt = None"
  by (simp add: date_formats_def offline_env_def strptime_model_def format_items_def
      read_year_def read_upto_def read_day_def month_names_def startswith_def lower_def
      lower_char_def isdigit_def isspace_def)

lemma sample_search_fails: "search_time_ago ''not a date'' = None"
  by code_simp

text \<open>
  Claim C8.  \<open>parse_date_string\<close> is total.  On a string that \<open>strptime\<close> rejects under each
  of the five formats and in which the pattern \<open><N> <unit> ago\<close> does not occur, it returns
  \<open>None\<close>; and on every value whatsoever it returns (\<open>Inr\<close>) and never raises (\<open>Inl\<close>).
\<close>

theorem parse_date_string_unparseable:
  assumes "\<forall>fmt\<in>set date_formats. strptime e s fmt = None"
    and "search_time_ago s = None"
  shows "parse_date_string e now (PStr s) = Inr None \<and>
         (\<forall>v. \<exists>r. parse_date_string e now v = Inr r)"
proof
  have "try_formats e s date_formats = None"
    using assms(1) by (rule try_formats_none)
  then show "parse_date_string e now (PStr s) = Inr None"
    using assms(2) by (simp add: parse_date_string_def parse_date_try_def)
next
  show "\<forall>v. \<exists>r. parse_date_string e now v = Inr r"
    by (simp add: parse_date_string_def split: sum.splits option.splits pyval.splits)
qed

text \<open>The string \<open>not a date\<close>, with the sample \<open>strptime\<close>.\<close>

theorem parse_date_string_unparseable_witness:
  "parse_date_string offline_env (clock offline_env []) (PStr ''not a date'') = Inr None \<and>
   (\<forall>v. \<exists>r. parse_date_string offline_env (clock offline_env []) v = Inr r)"
  using parse_date_string_unparseable [OF sample_formats_fail sample_search_fails] .

section \<open>Effects of the operations\<close>

lemma fetched_append: "fetched (a @ b) = fetched a @ fetched b"
  by (induction a rule: fetched.induct) auto

lemma posted_append: "posted (a @ b) = posted a @ posted b"
  by (induction a rule: posted.induct) auto

lemma rendered_append: "rendered (a @ b) = rendered a @ rendered b"
  by (induction a rule: rendered.induct) auto


lemma same_crawl_state_refl: "same_crawl_state st st"
  by (simp add: same_crawl_state_def)

lemma same_crawl_state_trans:
  "same_crawl_state a b \<Longrightarrow> same_crawl_state b c \<Longrightarrow> same_crawl_state a c"
  by (simp add: same_crawl_state_def)

lemma get_selenium_driver_effect:
  "same_crawl_state st (snd (get_selenium_driver e st))"
proof (cases "driver st")
  case True
  then show ?thesis by (simp add: get_selenium_driver_def same_crawl_state_def)
next
  case False
  then show ?thesis
    by (cases "chrome_start e (history st)")
       (simp_all add: get_selenium_driver_def same_crawl_state_def fetched_append posted_append)
qed

lemma fetch_page_selenium_effect:
  "same_crawl_state st (snd (fetch_page_selenium e u st))"
proof -
  obtain d st1 where g: "get_selenium_driver e st = (d, st1)"
    by (cases "get_selenium_driver e st")
  have "same_crawl_state st st1"
    using get_selenium_driver_effect [of st e] g by simp
  then show ?thesis
    using g by (simp add: fetch_page_selenium_def same_crawl_state_def fetched_append posted_append)
qed

lemma fetch_page_requests_effect:
  "fetched (history (snd (fetch_page_requests e u st))) = fetched (history st) @ [u] \<and>
   posted (history (snd (fetch_page_requests e u st))) = posted (history st) \<and>
   scraped_jobs (snd (fetch_page_requests e u st)) = scraped_jobs st \<and>
   queue (snd (fetch_page_requests e u st)) = queue st \<and>
   visited_urls (snd (fetch_page_requests e u st)) = visited_urls st"
  by (simp add: fetch_page_requests_def fetched_append posted_append)

lemma fetch_page_cases:
  "snd (fetch_page e u st) = snd (fetch_page_requests e u st) \<or>
   snd (fetch_page e u st) = snd (fetch_page_selenium e u (snd (fetch_page_requests e u st))) \<or>
   snd (fetch_page e u st) =
     snd (fetch_page_selenium e u (snd (fetch_page_selenium e u (snd (fetch_page_requests e u st)))))"
  by (simp add: fetch_page_def split: prod.splits option.splits)

lemma fetch_page_effect:
  "fetched (history (snd (fetch_page e u st))) = fetched (history st) @ [u] \<and>
   posted (history (snd (fetch_page e u st))) = posted (history st) \<and>
   scraped_jobs (snd (fetch_page e u st)) = scraped_jobs st \<and>
   queue (snd (fetch_page e u st)) = queue st \<and>
   visited_urls (snd (fetch_page e u st)) = visited_urls st"
proof -
  let ?s1 = "snd (fetch_page_requests e u st)"
  let ?s2 = "snd (fetch_page_selenium e u ?s1)"
  let ?s3 = "snd (fetch_page_selenium e u ?s2)"
  have a: "same_crawl_state ?s1 ?s2" by (rule fetch_page_selenium_effect)
  have b: "same_crawl_state ?s2 ?s3" by (rule fetch_page_selenium_effect)
  have c: "same_crawl_state ?s1 ?s3" using a b by (rule same_crawl_state_trans)
  have "same_crawl_state ?s1 (snd (fetch_page e u st))"
    using fetch_page_cases [of e u st] a c same_crawl_state_refl [of ?s1] by metis
  then show ?thesis
    using fetch_page_requests_effect [of e u st] by (simp add: same_crawl_state_def)
qed


lemma get_job_details_history:
  "history (snd (get_job_details_with_ollama e h u st)) = history st @ [OllamaChat u] \<and>
   scraped_jobs (snd (get_job_details_with_ollama e h u st)) = scraped_jobs st \<and>
   queue (snd (get_job_details_with_ollama e h u st)) = queue st \<and>
   visited_urls (snd (get_job_details_with_ollama e h u st)) = visited_urls st"
  by (simp add: get_job_details_with_ollama_def Let_def
      split: option.splits pyval.splits sum.splits)

lemma get_job_details_effect:
  "same_crawl_state st (snd (get_job_details_with_ollama e h u st))"
  using get_job_details_history [of e h u st]
  by (simp add: same_crawl_state_def fetched_append posted_append)

lemma extract_candidate_effect:
  "same_crawl_state st (snd (extract_candidate e h u st))"
  using get_job_details_effect [of st e h u]
  by (auto simp: extract_candidate_def Let_def same_crawl_state_refl
      split: prod.splits sum.splits)

lemma parse_job_page_state:
  "snd (parse_job_page e h u st) = snd (extract_candidate e h u st)"
  by (simp add: parse_job_page_def split: prod.splits sum.splits)

lemma parse_job_page_effect:
  "same_crawl_state st (snd (parse_job_page e h u st))"
  by (simp add: parse_job_page_state extract_candidate_effect)

lemma parse_job_page_complete:
  "fst (parse_job_page e h u st) = Inr (Some j) \<Longrightarrow> complete_job j"
  by (auto simp: parse_job_page_def complete_job_def split: prod.splits sum.splits if_splits)

text \<open>The only exception that leaves the extraction of a page is the \<open>ValueError\<close> of a URL.\<close>

lemma first_attr_raises: "first_attr soup join a selectors = Inl exc \<Longrightarrow> exc = ValueError"
  by (induction selectors) (auto split: option.splits if_splits)

lemma structural_pass_raises: "structural_pass e h u = Inl exc \<Longrightarrow> exc = ValueError"
  by (auto simp: structural_pass_def Let_def split: sum.splits dest: first_attr_raises)

lemma parse_job_page_raises:
  "fst (parse_job_page e h u st) = Inl exc \<Longrightarrow> exc = ValueError"
  by (auto simp: parse_job_page_def extract_candidate_def Let_def
      split: prod.splits sum.splits if_splits dest: structural_pass_raises)

lemma extract_links_loop_raises:
  "extract_links_loop e visited base_url base_domain hrefs links = Inl exc \<Longrightarrow> exc = ValueError"
  by (induction hrefs arbitrary: links) (auto split: option.splits)

lemma extract_links_raises: "extract_links e h u st = Inl exc \<Longrightarrow> exc = ValueError"
  by (auto simp: extract_links_def split: option.splits sum.splits
      dest: extract_links_loop_raises)

lemma push_job_to_api_effect:
  "fetched (history (snd (push_job_to_api e j st))) = fetched (history st) \<and>
   (posted (history (snd (push_job_to_api e j st))) = posted (history st) \<or>
    posted (history (snd (push_job_to_api e j st))) = posted (history st) @ [j]) \<and>
   scraped_jobs (snd (push_job_to_api e j st)) = scraped_jobs st \<and>
   queue (snd (push_job_to_api e j st)) = queue st \<and>
   visited_urls (snd (push_job_to_api e j st)) = visited_urls st"
  by (simp add: push_job_to_api_def fetched_append posted_append)

lemma enqueue_links_frame:
  "history (enqueue_links links st) = history st \<and>
   scraped_jobs (enqueue_links links st) = scraped_jobs st"
  by (induction links arbitrary: st) simp_all

lemma enqueue_links_inv:
  "distinct (popped @ queue st) \<Longrightarrow> set (popped @ queue st) = visited_urls st \<Longrightarrow>
   distinct (popped @ queue (enqueue_links links st)) \<and>
   set (popped @ queue (enqueue_links links st)) = visited_urls (enqueue_links links st)"
proof (induction links arbitrary: st)
  case Nil
  then show ?case by simp
next
  case (Cons link links)
  let ?st1 = "if link \<notin> visited_urls st \<and> length (queue st) < 50
      then st\<lparr>visited_urls := insert link (visited_urls st), queue := queue st @ [link]\<rparr>
      else st"
  have "distinct (popped @ queue ?st1) \<and> set (popped @ queue ?st1) = visited_urls ?st1"
    using Cons.prems by auto
  then show ?case using Cons.IH [of ?st1] by simp
qed


text \<open>
  One round of the loop, however it ends: the URL is handed to \<open>_fetch_page\<close>; no incomplete
  record is pushed or accumulated; the fetched URLs and the frontier stay without
  repetition and make up the visited set; only \<open>ValueError\<close> leaves the round; and a round
  whose fetch returns nothing ends normally in the state the fetch left.
\<close>

lemma crawl_page_effect:
  assumes "crawl_page e u st n = (st', n', x)"
  shows "fetched (history st') = fetched (history st) @ [u] \<and>
         (list_all complete_job (posted (history st)) \<longrightarrow>
          list_all complete_job (posted (history st'))) \<and>
         (list_all complete_job (scraped_jobs st) \<longrightarrow>
          list_all complete_job (scraped_jobs st')) \<and>
         (distinct (popped @ queue st) \<and> set (popped @ queue st) = visited_urls st \<longrightarrow>
          distinct (popped @ queue st') \<and> set (popped @ queue st') = visited_urls st') \<and>
         (x \<noteq> None \<longrightarrow> x = Some ValueError) \<and>
         (\<not> str_truthy (fst (fetch_page e u st)) \<longrightarrow>
          x = None \<and> st' = snd (fetch_page e u st) \<and> n' = n)"
proof -
  obtain r st1 where f: "fetch_page e u st = (r, st1)" by (cases "fetch_page e u st")
  have F: "fetched (history st1) = fetched (history st) @ [u]"
    "posted (history st1) = posted (history st)" "scraped_jobs st1 = scraped_jobs st"
    "queue st1 = queue st" "visited_urls st1 = visited_urls st"
    using fetch_page_effect [of e u st] f by simp_all
  show ?thesis
  proof (cases "str_truthy r")
    case False
    then have "st' = st1 \<and> n' = n \<and> x = None" using assms f
      by (auto simp: crawl_page_def str_truthy_def split: option.splits if_splits)
    then show ?thesis using F f by simp
  next
    case True
    then obtain h where r: "r = Some h" "h \<noteq> []"
      by (auto simp: str_truthy_def split: option.splits)
    have T: "str_truthy (fst (fetch_page e u st))" using True f by simp
    obtain pj st2 where p: "parse_job_page e h u st1 = (pj, st2)"
      by (cases "parse_job_page e h u st1")
    have P: "same_crawl_state st1 st2" using parse_job_page_effect [of st1 e h u] p by simp
    show ?thesis
    proof (cases pj)
      case (Inl exc)
      then have a: "st' = st2" "x = Some exc" using assms f r p by (simp_all add: crawl_page_def)
      have "exc = ValueError" using parse_job_page_raises [of e h u st1 exc] p Inl by simp
      then show ?thesis using a F P T by (simp add: same_crawl_state_def)
    next
      case (Inr job)
      note pjr = Inr
      have J: "\<And>j. job = Some j \<Longrightarrow> complete_job j"
        using parse_job_page_complete [of e h u st1] p pjr by simp
      define st4 where "st4 = fst (case job of
                                 None \<Rightarrow> (st2, n)
                               | Some job_data \<Rightarrow>
                                   (case push_job_to_api e job_data st2 of
                                      (pushed, st3) \<Rightarrow>
                                        if pushed
                                        then (st3\<lparr>scraped_jobs := scraped_jobs st3 @ [job_data]\<rparr>,
                                              n + 1)
                                        else (st3, n)))"
      have S4: "fetched (history st4) = fetched (history st2) \<and>
        queue st4 = queue st2 \<and> visited_urls st4 = visited_urls st2 \<and>
        (list_all complete_job (posted (history st2)) \<longrightarrow>
         list_all complete_job (posted (history st4))) \<and>
        (list_all complete_job (scraped_jobs st2) \<longrightarrow> list_all complete_job (scraped_jobs st4))"
      proof (cases job)
        case None
        then show ?thesis by (simp add: st4_def)
      next
        case (Some j)
        obtain ok st3 where q: "push_job_to_api e j st2 = (ok, st3)"
          by (cases "push_job_to_api e j st2")
        have Q: "fetched (history st3) = fetched (history st2)"
          "posted (history st3) = posted (history st2) \<or>
           posted (history st3) = posted (history st2) @ [j]"
          "scraped_jobs st3 = scraped_jobs st2" "queue st3 = queue st2"
          "visited_urls st3 = visited_urls st2"
          using push_job_to_api_effect [of e j st2] q by simp_all
        have c: "complete_job j" using J Some by simp
        have 1: "list_all complete_job (posted (history st2)) \<longrightarrow>
                 list_all complete_job (posted (history st3))"
          using Q(2) c by auto
        show ?thesis
        proof (cases ok)
          case True
          then have "st4 = st3\<lparr>scraped_jobs := scraped_jobs st3 @ [j]\<rparr>"
            using Some q by (simp add: st4_def)
          then show ?thesis using Q 1 c by simp
        next
          case False
          then have "st4 = st3" using Some q by (simp add: st4_def)
          then show ?thesis using Q 1 by simp
        qed
      qed
      show ?thesis
      proof (cases "extract_links e h u st4")
        case (Inl exc)
        then have a: "st' = st4" "x = Some exc"
          using assms f r p pjr by (auto simp: crawl_page_def st4_def split: prod.splits)
        have "exc = ValueError" using Inl by (rule extract_links_raises)
        then show ?thesis using a F P S4 T by (simp add: same_crawl_state_def)
      next
        case (Inr new_links)
        then have a: "st' = enqueue_links new_links st4" "x = None"
          using assms f r p pjr by (auto simp: crawl_page_def st4_def split: prod.splits)
        have E: "history st' = history st4" "scraped_jobs st' = scraped_jobs st4"
          using enqueue_links_frame [of new_links st4] a by simp_all
        have I: "distinct (popped @ queue st4) \<Longrightarrow> set (popped @ queue st4) = visited_urls st4 \<Longrightarrow>
             distinct (popped @ queue st') \<and> set (popped @ queue st') = visited_urls st'"
          unfolding a by (rule enqueue_links_inv)
        show ?thesis
          using F P S4 E I T a(2) by (simp add: same_crawl_state_def)
      qed
    qed
  qed
qed


section \<open>The crawl loop, round by round\<close>

lemma crawl_loop_iter:
  "max_pages_per_domain - p \<le> n \<Longrightarrow> crawl_loop e st p j = crawl_iter n e st p j"
proof (induction n arbitrary: st p j)
  case 0
  then show ?case by (subst crawl_loop.simps) (simp split: list.splits)
next
  case (Suc n)
  show ?case
  proof (cases "queue st")
    case Nil
    then show ?thesis by (subst crawl_loop.simps) simp
  next
    case (Cons u rest)
    show ?thesis
    proof (cases "p < max_pages_per_domain")
      case False
      then show ?thesis using Cons by (subst crawl_loop.simps) simp
    next
      case True
      obtain st1 j1 x where c: "crawl_page e u (st\<lparr>queue := rest\<rparr>) j = (st1, j1, x)"
        by (cases "crawl_page e u (st\<lparr>queue := rest\<rparr>) j")
      have "max_pages_per_domain - (p + 1) \<le> n" using Suc.prems by simp
      then have "crawl_loop e st1 (p + 1) j1 = crawl_iter n e st1 (p + 1) j1"
        by (rule Suc.IH)
      then show ?thesis using Cons True c
        by (subst crawl_loop.simps) (simp split: option.splits)
    qed
  qed
qed


lemma crawl_iter_inv:
  assumes "crawl_iter n e st p j = (st', p', j', x)"
  shows "\<exists>urls. fetched (history st') = fetched (history st) @ urls \<and>
           p' + (if x = None then 0 else 1) = p + length urls \<and>
           (list_all complete_job (posted (history st)) \<longrightarrow>
            list_all complete_job (posted (history st'))) \<and>
           (list_all complete_job (scraped_jobs st) \<longrightarrow>
            list_all complete_job (scraped_jobs st')) \<and>
           (\<forall>popped. distinct (popped @ queue st) \<and> set (popped @ queue st) = visited_urls st \<longrightarrow>
              distinct (popped @ urls @ queue st') \<and>
              set (popped @ urls @ queue st') = visited_urls st') \<and>
           (x \<noteq> None \<longrightarrow> x = Some ValueError)"
  using assms
proof (induction n arbitrary: st p j)
  case 0
  then show ?case by simp
next
  case (Suc n)
  show ?case
  proof (cases "queue st \<noteq> [] \<and> p < max_pages_per_domain")
    case False
    then have "(st', p', j', x) = (st, p, j, None)"
      using Suc.prems by (auto split: list.splits)
    then show ?thesis by simp
  next
    case True
    then obtain u rest where q: "queue st = u # rest" by (cases "queue st") auto
    obtain st1 j1 y where c: "crawl_page e u (st\<lparr>queue := rest\<rparr>) j = (st1, j1, y)"
      by (cases "crawl_page e u (st\<lparr>queue := rest\<rparr>) j")
    have C: "fetched (history st1) = fetched (history st) @ [u]"
      "list_all complete_job (posted (history st)) \<longrightarrow>
          list_all complete_job (posted (history st1))"
      "list_all complete_job (scraped_jobs st) \<longrightarrow>
          list_all complete_job (scraped_jobs st1)"
      "y \<noteq> None \<longrightarrow> y = Some ValueError"
      using crawl_page_effect [OF c, of "[]"] by simp_all
    have K: "\<And>popped. distinct (popped @ queue st) \<and> set (popped @ queue st) = visited_urls st \<Longrightarrow>
       distinct ((popped @ [u]) @ queue st1) \<and>
       set ((popped @ [u]) @ queue st1) = visited_urls st1"
    proof -
      fix popped
      assume a: "distinct (popped @ queue st) \<and> set (popped @ queue st) = visited_urls st"
      have "distinct ((popped @ [u]) @ queue (st\<lparr>queue := rest\<rparr>)) \<and>
            set ((popped @ [u]) @ queue (st\<lparr>queue := rest\<rparr>)) = visited_urls (st\<lparr>queue := rest\<rparr>)"
        using a q by auto
      then show "distinct ((popped @ [u]) @ queue st1) \<and>
                 set ((popped @ [u]) @ queue st1) = visited_urls st1"
        using crawl_page_effect [OF c, of "popped @ [u]"] by blast
    qed
    show ?thesis
    proof (cases y)
      case (Some exc)
      have "crawl_iter (Suc n) e st p j = (st1, p, j1, Some exc)"
        using True q c Some by simp
      then have eq: "st' = st1" "p' = p" "j' = j1" "x = Some exc" using Suc.prems by simp_all
      show ?thesis
      proof (intro exI [of _ "[u]"] conjI)
        show "fetched (history st') = fetched (history st) @ [u]" using C(1) eq by simp
        show "p' + (if x = None then 0 else 1) = p + length [u]" using eq by simp
        show "list_all complete_job (posted (history st)) \<longrightarrow>
              list_all complete_job (posted (history st'))"
          using C(2) eq by simp
        show "list_all complete_job (scraped_jobs st) \<longrightarrow>
              list_all complete_job (scraped_jobs st')"
          using C(3) eq by simp
        show "\<forall>popped. distinct (popped @ queue st) \<and> set (popped @ queue st) = visited_urls st \<longrightarrow>
              distinct (popped @ [u] @ queue st') \<and>
              set (popped @ [u] @ queue st') = visited_urls st'"
        proof (intro allI impI)
          fix popped
          assume a: "distinct (popped @ queue st) \<and> set (popped @ queue st) = visited_urls st"
          have "distinct ((popped @ [u]) @ queue st1) \<and>
                set ((popped @ [u]) @ queue st1) = visited_urls st1"
            using a by (rule K)
          then show "distinct (popped @ [u] @ queue st') \<and>
                set (popped @ [u] @ queue st') = visited_urls st'"
            using eq by simp
        qed
        show "x \<noteq> None \<longrightarrow> x = Some ValueError" using C(4) eq Some by simp
      qed
    next
      case None
      have r: "crawl_iter n e st1 (p + 1) j1 = (st', p', j', x)"
        using Suc.prems True q c None by simp
      from Suc.IH [OF r] obtain urls where U:
        "fetched (history st') = fetched (history st1) @ urls"
        "p' + (if x = None then 0 else 1) = p + 1 + length urls"
        "list_all complete_job (posted (history st1)) \<longrightarrow>
              list_all complete_job (posted (history st'))"
        "list_all complete_job (scraped_jobs st1) \<longrightarrow>
              list_all complete_job (scraped_jobs st')"
        "\<forall>popped. distinct (popped @ queue st1) \<and> set (popped @ queue st1) = visited_urls st1 \<longrightarrow>
                distinct (popped @ urls @ queue st') \<and>
                set (popped @ urls @ queue st') = visited_urls st'"
        "x \<noteq> None \<longrightarrow> x = Some ValueError"
        by auto
      have D: "\<forall>popped. distinct (popped @ queue st) \<and> set (popped @ queue st) = visited_urls st \<longrightarrow>
                distinct (popped @ (u # urls) @ queue st') \<and>
                set (popped @ (u # urls) @ queue st') = visited_urls st'"
      proof (intro allI impI)
        fix popped
        assume a: "distinct (popped @ queue st) \<and> set (popped @ queue st) = visited_urls st"
        have "distinct ((popped @ [u]) @ queue st1) \<and>
                   set ((popped @ [u]) @ queue st1) = visited_urls st1"
          using a by (rule K)
        then have "distinct ((popped @ [u]) @ urls @ queue st') \<and>
                set ((popped @ [u]) @ urls @ queue st') = visited_urls st'"
          using U(5) by blast
        then show "distinct (popped @ (u # urls) @ queue st') \<and>
                set (popped @ (u # urls) @ queue st') = visited_urls st'"
          by simp
      qed
      show ?thesis
      proof (intro exI [of _ "u # urls"] conjI)
        show "fetched (history st') = fetched (history st) @ u # urls"
          using U(1) C(1) by simp
        show "p' + (if x = None then 0 else 1) = p + length (u # urls)" using U(2) by simp
        show "list_all complete_job (posted (history st)) \<longrightarrow>
              list_all complete_job (posted (history st'))"
          using U(3) C(2) by blast
        show "list_all complete_job (scraped_jobs st) \<longrightarrow>
              list_all complete_job (scraped_jobs st')"
          using U(4) C(3) by blast
        show "\<forall>popped. distinct (popped @ queue st) \<and> set (popped @ queue st) = visited_urls st \<longrightarrow>
                distinct (popped @ (u # urls) @ queue st') \<and>
                set (popped @ (u # urls) @ queue st') = visited_urls st'"
          by (rule D)
        show "x \<noteq> None \<longrightarrow> x = Some ValueError" by (rule U(6))
      qed
    qed
  qed
qed

section \<open>Running the samples\<close>

text \<open>The definitions that the simplifier unfolds to run the model on a sample.\<close>

lemmas fetch_defs = fetch_page_def fetch_page_requests_def fetch_page_selenium_def
  get_selenium_driver_def str_truthy_def

lemmas string_defs = startswith_def endswith_def lower_def lower_char_def isdigit_def
  isspace_def strip_def slice_mid_def

lemmas parse_defs = parse_job_page_def extract_candidate_def structural_pass_def
  merge_ollama_def merge_field_def get_job_details_with_ollama_def strip_fences_def
  make_apply_url_absolute_def parse_date_posted_def dict_get_def
  title_selectors_def desc_selectors_def location_selectors_def apply_selectors_def
  img_selectors_def

lemmas url_defs = simple_urljoin_def simple_urlparse_def url_origin_def url_parts_def
  bad_netloc_def

lemmas link_defs = extract_links_def job_path_match_def job_path_patterns_def
  pagination_match_def pagination_keys_def keyword_match_def link_keywords_def

section \<open>Properties of link discovery\<close>

text \<open>
  When the loop over the anchors returns, every \<open>href\<close> was joined and parsed, and the
  result is the list built so far followed by the accepted links in document order.
\<close>

lemma extract_links_loop_filter:
  assumes "urlparse e base_url = Some parsed_base"
    and "extract_links_loop e visited base_url (netloc parsed_base) hrefs links = Inr out"
  shows "out = links @ filter (link_accepted e visited base_url)
                         (List.map_filter (urljoin e base_url) hrefs) \<and>
         (\<forall>href\<in>set hrefs. \<exists>full. urljoin e base_url href = Some full \<and> urlparse e full \<noteq> None)"
  using assms(2)
proof (induction hrefs arbitrary: links)
  case Nil
  then show ?case by (simp add: map_filter_simps)
next
  case (Cons href hrefs)
  from Cons.prems obtain full where j: "urljoin e base_url href = Some full"
    by (cases "urljoin e base_url href") auto
  from Cons.prems j obtain parsed where q: "urlparse e full = Some parsed"
    by (cases "urlparse e full") auto
  let ?links = "if netloc parsed = netloc parsed_base \<and> full \<notin> visited then
                  (if job_path_match (path parsed) then links @ [full]
                   else if pagination_match (query parsed) then links @ [full]
                   else if keyword_match full then links @ [full]
                   else links)
                else links"
  have "extract_links_loop e visited base_url (netloc parsed_base) hrefs ?links = Inr out"
    using Cons.prems j q by simp
  from Cons.IH [OF this]
  have IH: "out = ?links @ filter (link_accepted e visited base_url)
                         (List.map_filter (urljoin e base_url) hrefs)"
    "\<forall>href\<in>set hrefs. \<exists>full. urljoin e base_url href = Some full \<and> urlparse e full \<noteq> None"
    by simp_all
  have a: "?links = links @ (if link_accepted e visited base_url full then [full] else [])"
    using q assms(1) by (simp add: link_accepted_def)
  show ?case
    using IH(2) j q unfolding IH(1) a by (simp add: map_filter_simps)
qed

text \<open>And it returns whenever every \<open>href\<close> can be joined and parsed.\<close>

lemma extract_links_loop_returns:
  "\<forall>href\<in>set hrefs. \<exists>full. urljoin e base_url href = Some full \<and> urlparse e full \<noteq> None \<Longrightarrow>
   \<exists>out. extract_links_loop e visited base_url base_domain hrefs links = Inr out"
  by (induction hrefs arbitrary: links) auto

text \<open>
  Claim C7.  Every URL that \<open>_extract_links\<close> returns has the \<open>netloc\<close> of the base URL
  (the host is a part of the \<open>netloc\<close>, so it is the same too); at most 20 URLs are
  returned; and they are the first 20 accepted links, in the order of the anchors in the
  document.  The function returns exactly when \<open>urlparse\<close> accepts the base URL and every
  \<open>href\<close> can be joined with it and the result parsed; otherwise it raises \<open>ValueError\<close>.
\<close>

theorem extract_links_same_host:
  "(\<forall>links. extract_links e html base_url st = Inr links \<longrightarrow>
      (\<forall>u\<in>set links. urlparse e u \<noteq> None \<and>
         map_option netloc (urlparse e u) = map_option netloc (urlparse e base_url)) \<and>
      length links \<le> 20 \<and>
      links = take 20 (filter (link_accepted e (visited_urls st) base_url)
                         (List.map_filter (urljoin e base_url) (anchor_hrefs e html)))) \<and>
   ((\<exists>links. extract_links e html base_url st = Inr links) \<longleftrightarrow>
      urlparse e base_url \<noteq> None \<and>
      (\<forall>href\<in>set (anchor_hrefs e html).
         \<exists>full. urljoin e base_url href = Some full \<and> urlparse e full \<noteq> None)) \<and>
   (\<forall>exc. extract_links e html base_url st = Inl exc \<longrightarrow> exc = ValueError)"
proof (intro conjI allI impI)
  fix links
  assume r: "extract_links e html base_url st = Inr links"
  then obtain parsed_base where b: "urlparse e base_url = Some parsed_base"
    by (cases "urlparse e base_url") (auto simp: extract_links_def)
  from r b obtain out where
    l: "extract_links_loop e (visited_urls st) base_url (netloc parsed_base)
          (anchor_hrefs e html) [] = Inr out"
    and t: "links = take 20 out"
    by (auto simp: extract_links_def split: sum.splits)
  have o: "out = filter (link_accepted e (visited_urls st) base_url)
                   (List.map_filter (urljoin e base_url) (anchor_hrefs e html))"
    using extract_links_loop_filter [OF b l] by simp
  show eq: "links = take 20 (filter (link_accepted e (visited_urls st) base_url)
                         (List.map_filter (urljoin e base_url) (anchor_hrefs e html)))"
    using t o by simp
  show "length links \<le> 20" using t by simp
  show "\<forall>u\<in>set links. urlparse e u \<noteq> None \<and>
         map_option netloc (urlparse e u) = map_option netloc (urlparse e base_url)"
  proof
    fix u assume "u \<in> set links"
    then have "u \<in> set (filter (link_accepted e (visited_urls st) base_url)
                  (List.map_filter (urljoin e base_url) (anchor_hrefs e html)))"
      unfolding eq by (rule in_set_takeD)
    then have "link_accepted e (visited_urls st) base_url u" by simp
    then show "urlparse e u \<noteq> None \<and>
         map_option netloc (urlparse e u) = map_option netloc (urlparse e base_url)"
      by (auto simp: link_accepted_def split: option.splits)
  qed
next
  show "(\<exists>links. extract_links e html base_url st = Inr links) \<longleftrightarrow>
      urlparse e base_url \<noteq> None \<and>
      (\<forall>href\<in>set (anchor_hrefs e html).
         \<exists>full. urljoin e base_url href = Some full \<and> urlparse e full \<noteq> None)"
  proof
    assume "\<exists>links. extract_links e html base_url st = Inr links"
    then obtain links where r: "extract_links e html base_url st = Inr links" by blast
    then obtain parsed_base where b: "urlparse e base_url = Some parsed_base"
      by (cases "urlparse e base_url") (auto simp: extract_links_def)
    from r b obtain out where
      l: "extract_links_loop e (visited_urls st) base_url (netloc parsed_base)
            (anchor_hrefs e html) [] = Inr out"
      by (auto simp: extract_links_def split: sum.splits)
    show "urlparse e base_url \<noteq> None \<and>
      (\<forall>href\<in>set (anchor_hrefs e html).
         \<exists>full. urljoin e base_url href = Some full \<and> urlparse e full \<noteq> None)"
      using extract_links_loop_filter [OF b l] b by simp
  next
    assume a: "urlparse e base_url \<noteq> None \<and>
      (\<forall>href\<in>set (anchor_hrefs e html).
         \<exists>full. urljoin e base_url href = Some full \<and> urlparse e full \<noteq> None)"
    then obtain parsed_base where b: "urlparse e base_url = Some parsed_base" by auto
    obtain out where "extract_links_loop e (visited_urls st) base_url (netloc parsed_base)
            (anchor_hrefs e html) [] = Inr out"
      using extract_links_loop_returns [of "anchor_hrefs e html" e base_url] a by blast
    then show "\<exists>links. extract_links e html base_url st = Inr links"
      using b by (simp add: extract_links_def)
  qed
next
  fix exc
  assume "extract_links e html base_url st = Inl exc"
  then show "exc = ValueError" by (rule extract_links_raises)
qed

section \<open>Properties of fetching\<close>

text \<open>
  When the static tier succeeds, one call of \<open>_fetch_page\<close> hands the URL to the browser at
  most once.
\<close>

lemma static_success_renders_once:
  assumes "str_truthy (static_get e (history st) u)"
  shows "length (rendered (history (snd (fetch_page e u st)))) \<le> length (rendered (history st)) + 1"
proof -
  have g: "\<And>s. rendered (history (snd (get_selenium_driver e s))) = rendered (history s)"
    by (simp add: get_selenium_driver_def Let_def rendered_append split: driver_setup.splits)
  have s: "\<And>s. length (rendered (history (snd (fetch_page_selenium e u s))))
       \<le> length (rendered (history s)) + 1"
    using g by (simp add: fetch_page_selenium_def rendered_append split: prod.splits)
       (metis g snd_conv le_SucI order_refl)
  show ?thesis
    using assms s [of "snd (fetch_page_requests e u st)"]
    by (auto simp: fetch_page_def fetch_page_requests_def rendered_append
        split: prod.splits option.splits)
qed

text \<open>
  Claim C4 fails when the static tier fails and the browser returns a thin page.  The
  static request for \<open>https://example.com/jobs/9\<close> fails, the browser is started and returns
  a page of 20 characters that contains \<open>loading\<close>; the second test of \<open>_fetch_page\<close> then
  hands the same URL to the browser again.
\<close>

theorem rendered_tier_attempted_twice:
  "rendered (history (snd (fetch_page render_env ''https://example.com/jobs/9''
      (init_scraper True)))) =
   [''https://example.com/jobs/9'', ''https://example.com/jobs/9'']"
  by (simp add: fetch_defs init_scraper_def render_env_def offline_env_def string_defs)

section \<open>Properties of the crawl\<close>

lemma crawl_domain_iter:
  "urlparse e start_url \<noteq> None \<Longrightarrow>
   crawl_domain e start_url st =
   crawl_iter max_pages_per_domain e (st\<lparr>queue := [start_url], visited_urls := {start_url}\<rparr>) 0 0"
proof -
  assume "urlparse e start_url \<noteq> None"
  then have "crawl_domain e start_url st =
      crawl_loop e (st\<lparr>queue := [start_url], visited_urls := {start_url}\<rparr>) 0 0"
    by (auto simp: crawl_domain_def)
  also have "\<dots> = crawl_iter max_pages_per_domain e
      (st\<lparr>queue := [start_url], visited_urls := {start_url}\<rparr>) 0 0"
    by (rule crawl_loop_iter) simp
  finally show ?thesis .
qed

lemma crawl_domain_unparsed:
  "urlparse e start_url = None \<Longrightarrow> crawl_domain e start_url st = (st, 0, 0, Some ValueError)"
  by (simp add: crawl_domain_def)

lemma crawl_domain_complete:
  assumes "list_all complete_job (scraped_jobs st)"
    and "list_all complete_job (posted (history st))"
  shows "list_all complete_job (scraped_jobs (fst (crawl_domain e start_url st))) \<and>
         list_all complete_job (posted (history (fst (crawl_domain e start_url st))))"
proof (cases "urlparse e start_url")
  case None
  then show ?thesis using assms by (simp add: crawl_domain_unparsed)
next
  case (Some parsed)
  obtain st' p' j' x where r: "crawl_domain e start_url st = (st', p', j', x)"
    by (cases "crawl_domain e start_url st")
  then have "crawl_iter max_pages_per_domain e
      (st\<lparr>queue := [start_url], visited_urls := {start_url}\<rparr>) 0 0 = (st', p', j', x)"
    using Some by (simp add: crawl_domain_iter)
  from crawl_iter_inv [OF this] show ?thesis using assms r by auto
qed

lemma crawl_domains_complete:
  "list_all complete_job (scraped_jobs st) \<Longrightarrow> list_all complete_job (posted (history st)) \<Longrightarrow>
   list_all complete_job (scraped_jobs (fst (crawl_domains e urls st))) \<and>
   list_all complete_job (posted (history (fst (crawl_domains e urls st))))"
proof (induction urls arbitrary: st)
  case Nil
  then show ?case by simp
next
  case (Cons u urls)
  obtain st' p' j' x where r: "crawl_domain e u st = (st', p', j', x)"
    by (cases "crawl_domain e u st")
  have c: "list_all complete_job (scraped_jobs st') \<and>
        list_all complete_job (posted (history st'))"
    using crawl_domain_complete [OF Cons.prems, of e u] r by simp
  show ?case
  proof (cases x)
    case None
    then show ?thesis using Cons.IH [of st'] c r by simp
  next
    case (Some exc)
    then show ?thesis using c r by simp
  qed
qed

text \<open>
  Claim C2.  \<open>_parse_job_page\<close> returns \<open>None\<close> exactly when, after the structural pass and
  the oracle pass, the title or the description is false (\<open>None\<close> or empty); a record it
  returns has both.  Consequently, if the records pushed and accumulated so far have both
  fields, so do all the records pushed to the endpoint and accumulated by \<open>crawl\<close>, whether
  \<open>crawl\<close> returns or is left by an exception.
\<close>

theorem incomplete_record_never_emitted:
  "(fst (parse_job_page e html url st0) = Inr None \<longleftrightarrow>
      (\<exists>c. fst (extract_candidate e html url st0) = Inr c \<and> \<not> complete_job c)) \<and>
   (\<forall>j. fst (parse_job_page e html url st0) = Inr (Some j) \<longrightarrow>
      truthy (job_title j) \<and> truthy (job_description j)) \<and>
   (list_all complete_job (scraped_jobs st) \<and> list_all complete_job (posted (history st)) \<longrightarrow>
      list_all complete_job (scraped_jobs (fst (crawl e st))) \<and>
      list_all complete_job (posted (history (fst (crawl e st)))))"
proof (intro conjI allI impI)
  show "fst (parse_job_page e html url st0) = Inr None \<longleftrightarrow>
      (\<exists>c. fst (extract_candidate e html url st0) = Inr c \<and> \<not> complete_job c)"
    by (auto simp: parse_job_page_def complete_job_def split: prod.splits sum.splits)
next
  fix j assume "fst (parse_job_page e html url st0) = Inr (Some j)"
  then have "complete_job j" by (rule parse_job_page_complete)
  then show "truthy (job_title j)" "truthy (job_description j)"
    by (simp_all add: complete_job_def)
next
  assume a: "list_all complete_job (scraped_jobs st) \<and> list_all complete_job (posted (history st))"
  then show "list_all complete_job (scraped_jobs (fst (crawl e st)))"
    "list_all complete_job (posted (history (fst (crawl e st))))"
    using crawl_domains_complete [of st e "load_start_urls e"]
    by (simp_all add: crawl_def Let_def)
qed


text \<open>
  Claim C9.  At the head of the loop after any number of rounds of one domain pass, and
  also when an exception has left the pass, the URLs fetched in the pass (handed to
  \<open>_fetch_page\<close>) followed by the frontier form a list without repetition, and its elements
  are exactly the visited set: every URL is fetched at most once, no URL is twice in the
  frontier, and a URL is in the visited set from the moment it is enqueued.
\<close>

theorem url_fetched_at_most_once:
  assumes "crawl_iter n e (st\<lparr>queue := [start_url], visited_urls := {start_url}\<rparr>) 0 0 =
             (st', pages, jobs, raised)"
  shows "\<exists>urls. fetched (history st') = fetched (history st) @ urls \<and>
           distinct (urls @ queue st') \<and> set (urls @ queue st') = visited_urls st'"
proof -
  let ?s = "st\<lparr>queue := [start_url], visited_urls := {start_url}\<rparr>"
  obtain urls where u: "fetched (history st') = fetched (history ?s) @ urls"
    "\<forall>popped. distinct (popped @ queue ?s) \<and> set (popped @ queue ?s) = visited_urls ?s \<longrightarrow>
        distinct (popped @ urls @ queue st') \<and> set (popped @ urls @ queue st') = visited_urls st'"
    using crawl_iter_inv [OF assms] by blast
  have "distinct ([] @ queue ?s) \<and> set ([] @ queue ?s) = visited_urls ?s" by simp
  then have "distinct ([] @ urls @ queue st') \<and> set ([] @ urls @ queue st') = visited_urls st'"
    using u(2) by blast
  then show ?thesis using u(1) by auto
qed


section \<open>The sample runs\<close>

lemma site_index_links:
  "visited_urls st = {''https://example.com/jobs''} \<Longrightarrow>
   extract_links site_env index_html ''https://example.com/jobs'' st =
     Inr [''https://example.com/jobs/1'', ''https://example.com/jobs/2'',
          ''https://example.com/jobs/1'']"
  by (simp add: Let_def link_defs site_env_def offline_env_def string_defs url_defs
      index_html_def)

lemma site_index_fetch:
  "fetch_page site_env ''https://example.com/jobs''
     \<lparr>use_selenium = True, driver = False, scraped_jobs = [],
      visited_urls = {''https://example.com/jobs''}, queue = [], history = []\<rparr> =
   (Some index_html,
    \<lparr>use_selenium = False, driver = False, scraped_jobs = [],
      visited_urls = {''https://example.com/jobs''}, queue = [],
      history = [StaticGet ''https://example.com/jobs'', ChromeStart]\<rparr>)"
  by (simp add: fetch_defs site_env_def offline_env_def string_defs index_html_def)

lemma site_index_parse:
  "parse_job_page site_env index_html ''https://example.com/jobs'' st =
   (Inr None, st\<lparr>history := history st @ [OllamaChat ''https://example.com/jobs'']\<rparr>)"
  by (simp add: parse_defs site_env_def offline_env_def index_html_def job_html_def Let_def)

lemma site_index_page:
  "crawl_page site_env ''https://example.com/jobs''
     \<lparr>use_selenium = True, driver = False, scraped_jobs = [],
      visited_urls = {''https://example.com/jobs''}, queue = [], history = []\<rparr> 0 =
   (site_after_index, 0, None)"
proof -
  have "index_html \<noteq> []" by (simp add: index_html_def)
  then show ?thesis
    by (simp add: crawl_page_def site_index_fetch site_index_parse site_index_links
        site_after_index_def)
qed

lemma site_first_round:
  "crawl_iter 1 site_env
     ((init_scraper True)\<lparr>queue := [''https://example.com/jobs''],
        visited_urls := {''https://example.com/jobs''}\<rparr>) 0 0 =
   (site_after_index, 1, 0, None)"
  by (simp add: init_scraper_def site_index_page max_pages_per_domain_def)

text \<open>
  The first round on the sample site: the index page links to the first posting twice, and
  the frontier holds it once.
\<close>

theorem url_fetched_at_most_once_witness:
  "crawl_iter 1 site_env
     ((init_scraper True)\<lparr>queue := [''https://example.com/jobs''],
        visited_urls := {''https://example.com/jobs''}\<rparr>) 0 0 =
   (site_after_index, 1, 0, None) \<and>
   queue site_after_index = [''https://example.com/jobs/1'', ''https://example.com/jobs/2''] \<and>
   (\<exists>urls. fetched (history site_after_index) = fetched (history (init_scraper True)) @ urls \<and>
      distinct (urls @ queue site_after_index) \<and>
      set (urls @ queue site_after_index) = visited_urls site_after_index)"
  using url_fetched_at_most_once [OF site_first_round] site_first_round
  by (simp add: site_after_index_def)

lemma offline_fetch:
  "fetch_page offline_env u
     \<lparr>use_selenium = False, driver = False, scraped_jobs = [],
      visited_urls = v, queue = q, history = []\<rparr> =
   (None, \<lparr>use_selenium = False, driver = False, scraped_jobs = [],
      visited_urls = v, queue = q, history = [StaticGet u]\<rparr>)"
  by (simp add: fetch_defs offline_env_def)

lemma offline_page:
  "crawl_page offline_env ''https://example.com/jobs''
     \<lparr>use_selenium = False, driver = False, scraped_jobs = [],
      visited_urls = {''https://example.com/jobs''}, queue = [], history = []\<rparr> 0 =
   (offline_after, 0, None)"
  by (simp add: crawl_page_def offline_fetch offline_after_def)





lemma offline_first_round:
  "crawl_iter 1 offline_env
     ((init_scraper False)\<lparr>queue := [''https://example.com/jobs''],
        visited_urls := {''https://example.com/jobs''}\<rparr>) 0 0 = (offline_after, 1, 0, None)"
  by (simp add: init_scraper_def offline_page max_pages_per_domain_def)


text \<open>The index page of the sample site has no title: it is rejected.\<close>

theorem incomplete_record_never_emitted_witness:
  "fst (parse_job_page site_env index_html ''https://example.com/jobs'' (init_scraper True)) =
     Inr None \<and>
   (\<exists>c. fst (extract_candidate site_env index_html ''https://example.com/jobs''
        (init_scraper True)) = Inr c \<and> \<not> complete_job c) \<and>
   list_all complete_job (scraped_jobs (fst (crawl site_env (init_scraper True)))) \<and>
   list_all complete_job (posted (history (fst (crawl site_env (init_scraper True)))))"
proof -
  note t = incomplete_record_never_emitted [of site_env index_html "''https://example.com/jobs''"
      "init_scraper True" "init_scraper True"]
  have n: "fst (parse_job_page site_env index_html ''https://example.com/jobs''
      (init_scraper True)) = Inr None"
    by (simp add: site_index_parse)
  have e: "list_all complete_job (scraped_jobs (init_scraper True)) \<and>
      list_all complete_job (posted (history (init_scraper True)))"
    by (simp add: init_scraper_def)
  show ?thesis using t n e by blast
qed

section \<open>Properties of field extraction\<close>

text \<open>The structural pass bounds the description: more than 100 and at most 2000 characters.\<close>

lemma first_description_bounded:
  "first_description soup selectors = PStr s \<Longrightarrow> length s \<le> 2000"
  by (induction selectors) (auto split: option.splits if_splits)

lemma first_description_str:
  "first_description soup selectors = PNone \<or>
   (\<exists>s. first_description soup selectors = PStr s \<and> 100 < length s \<and> length s \<le> 2000)"
  by (induction selectors) (auto split: option.splits)

text \<open>
  For a page URL that is not empty, the apply URL is set before the oracle is asked, so the
  merge never takes the oracle's.
\<close>

lemma structural_apply_url_truthy:
  "url \<noteq> [] \<Longrightarrow> structural_pass e html url = Inr extracted \<Longrightarrow> truthy (apply_url extracted)"
  by (auto simp: structural_pass_def Let_def split: sum.splits)

lemma oracle_apply_url_unused:
  "url \<noteq> [] \<Longrightarrow> structural_pass e html url = Inr extracted \<Longrightarrow>
   fst (extract_candidate e html url st) = Inr c \<Longrightarrow> apply_url c = apply_url extracted"
proof -
  assume u: "url \<noteq> []" and s: "structural_pass e html url = Inr extracted"
    and c: "fst (extract_candidate e html url st) = Inr c"
  have t: "truthy (apply_url extracted)" using u s by (rule structural_apply_url_truthy)
  have "c = extracted \<or> (\<exists>ollama_data. c = merge_ollama extracted ollama_data)"
  proof (cases "truthy (job_title extracted) \<and> truthy (job_description extracted) \<and>
                truthy (job_location extracted)")
    case True
    then show ?thesis using s c by (simp add: extract_candidate_def)
  next
    case False
    then show ?thesis using s c by (auto simp: extract_candidate_def split: prod.splits)
  qed
  then show ?thesis using t by (auto simp: merge_ollama_def merge_field_def)
qed

text \<open>
  Claim C1 fails on the code.  The page at \<open>https://example.com/jobs/9\<close> has no apply link
  and no title; the oracle answers with a title, a description and the apply URL
  \<open>/apply/42\<close>.  \<open>get_job_details_with_ollama\<close> resolves it to
  \<open>https://example.com/apply/42\<close>, but the structural pass has already set the apply URL to
  the page URL, and the record keeps the page URL.
\<close>

theorem oracle_apply_url_dropped:
  "dict_get (fst (get_job_details_with_ollama relative_env ''<html>posting</html>''
              ''https://example.com/jobs/9'' (init_scraper True))) ''apply_url'' =
     PStr ''https://example.com/apply/42'' \<and>
   map_sum id apply_url (structural_pass relative_env ''<html>posting</html>''
      ''https://example.com/jobs/9'') = Inr (PStr ''https://example.com/jobs/9'') \<and>
   map_sum id (map_option apply_url) (fst (parse_job_page relative_env ''<html>posting</html>''
        ''https://example.com/jobs/9'' (init_scraper True))) =
     Inr (Some (PStr ''https://example.com/jobs/9''))"
  by (simp add: parse_defs relative_env_def relative_answer_def offline_env_def string_defs
      url_defs init_scraper_def Let_def)

text \<open>The page whose description comes from the oracle, step by step.\<close>

lemma long_parse:
  "parse_job_page long_env ''<html>posting</html>'' ''https://example.com/jobs/9'' st =
   (Inr (Some long_job),
    st\<lparr>history := history st @ [OllamaChat ''https://example.com/jobs/9'']\<rparr>)"
  by (simp add: parse_defs long_env_def long_answer_def offline_env_def string_defs
      long_job_def Let_def)

lemma long_fetch:
  "fetch_page long_env u
     \<lparr>use_selenium = False, driver = False, scraped_jobs = [],
      visited_urls = v, queue = q, history = []\<rparr> =
   (Some ''<html>posting</html>'', \<lparr>use_selenium = False, driver = False, scraped_jobs = [],
      visited_urls = v, queue = q, history = [StaticGet u]\<rparr>)"
  by (simp add: fetch_defs long_env_def offline_env_def)

lemma long_push:
  "push_job_to_api long_env long_job st = (True, st\<lparr>history := history st @ [ApiPost long_job]\<rparr>)"
  by (simp add: push_job_to_api_def long_env_def offline_env_def schema_ok_def is_str_def
      long_job_def)

lemma long_links:
  "extract_links long_env ''<html>posting</html>'' ''https://example.com/jobs/9'' st = Inr []"
  by (simp add: extract_links_def long_env_def offline_env_def url_defs startswith_def Let_def)

text \<open>
  Claim C5 fails on the code.  The oracle's description of 2001 characters is merged as it
  is: the record pushed to the endpoint and accumulated has a description of 2001
  characters.
\<close>

theorem oracle_description_unbounded:
  "scraped_jobs (fst (crawl_page long_env ''https://example.com/jobs/9''
      ((init_scraper False)\<lparr>visited_urls := {''https://example.com/jobs/9''}\<rparr>) 0)) = [long_job] \<and>
   posted (history (fst (crawl_page long_env ''https://example.com/jobs/9''
      ((init_scraper False)\<lparr>visited_urls := {''https://example.com/jobs/9''}\<rparr>) 0))) = [long_job] \<and>
   job_description long_job = PStr (replicate 2001 CHR ''x'') \<and>
   length (replicate 2001 CHR ''x'') = 2001"
  by (simp add: crawl_page_def init_scraper_def long_fetch long_parse long_push long_links)
     (simp add: long_job_def)

section \<open>Properties of the sink\<close>

text \<open>
  Claim C6, amended.  \<open>push_job_to_api\<close> returns \<open>True\<close> exactly when the schema accepts the
  record and the POST succeeds: a push that fails returns \<open>False\<close>.  One POST carries the
  record when the schema accepts it and none otherwise: nothing is retried.  For a page that
  is fetched and yields a record, the record is appended to \<open>scraped_jobs\<close> and counted
  exactly when \<open>push_job_to_api\<close> returns \<open>True\<close>; when it returns \<open>False\<close> the list and the
  count are unchanged.
\<close>

theorem failed_push_drops_record:
  assumes "fetch_page e u st = (Some h, st1)" and "h \<noteq> []"
    and "parse_job_page e h u st1 = (Inr (Some job), st2)"
  shows "fst (push_job_to_api e job st2) = (pydantic_ok e job \<and> api_post e (history st2) job) \<and>
         (\<not> pydantic_ok e job \<or> \<not> api_post e (history st2) job \<longrightarrow>
            \<not> fst (push_job_to_api e job st2)) \<and>
         posted (history (snd (push_job_to_api e job st2))) =
           posted (history st2) @ (if pydantic_ok e job then [job] else []) \<and>
         scraped_jobs (fst (crawl_page e u st n)) =
           (if fst (push_job_to_api e job st2) then scraped_jobs st @ [job] else scraped_jobs st) \<and>
         fst (snd (crawl_page e u st n)) = (if fst (push_job_to_api e job st2) then n + 1 else n) \<and>
         posted (history (fst (crawl_page e u st n))) =
           posted (history st) @ (if pydantic_ok e job then [job] else [])"
proof -
  obtain ok st3 where q: "push_job_to_api e job st2 = (ok, st3)"
    by (cases "push_job_to_api e job st2")
  have F: "posted (history st1) = posted (history st)" "scraped_jobs st1 = scraped_jobs st"
    using fetch_page_effect [of e u st] assms(1) by simp_all
  have P: "posted (history st2) = posted (history st1)" "scraped_jobs st2 = scraped_jobs st1"
    using parse_job_page_effect [of st1 e h u] assms(3) by (simp_all add: same_crawl_state_def)
  have R: "ok = (pydantic_ok e job \<and> api_post e (history st2) job)"
    "posted (history st3) = posted (history st2) @ (if pydantic_ok e job then [job] else [])"
    "scraped_jobs st3 = scraped_jobs st2"
    using q by (auto simp: push_job_to_api_def posted_append split: if_splits)
  define st4 where "st4 = (if ok then st3\<lparr>scraped_jobs := scraped_jobs st3 @ [job]\<rparr> else st3)"
  have S: "scraped_jobs st4 = (if ok then scraped_jobs st @ [job] else scraped_jobs st)"
    "posted (history st4) = posted (history st) @ (if pydantic_ok e job then [job] else [])"
    using F P R by (simp_all add: st4_def)
  have C: "fst (snd (crawl_page e u st n)) = (if ok then n + 1 else n) \<and>
           (fst (crawl_page e u st n) = st4 \<or>
            (\<exists>links. fst (crawl_page e u st n) = enqueue_links links st4))"
    using assms q by (cases ok) (auto simp: crawl_page_def st4_def split: sum.splits)
  have D: "scraped_jobs (fst (crawl_page e u st n)) = scraped_jobs st4 \<and>
           posted (history (fst (crawl_page e u st n))) = posted (history st4)"
    using C by (auto simp: enqueue_links_frame)
  show ?thesis using q R(1,2) S C D by simp
qed

text \<open>The first posting of the sample site when the endpoint rejects it, step by step.\<close>

lemma job_fetch:
  "fetch_page reject_env ''https://example.com/jobs/1''
     \<lparr>use_selenium = False, driver = False, scraped_jobs = [],
      visited_urls = v, queue = q, history = []\<rparr> =
   (Some job_html, \<lparr>use_selenium = False, driver = False, scraped_jobs = [],
      visited_urls = v, queue = q, history = [StaticGet ''https://example.com/jobs/1'']\<rparr>)"
  by (simp add: fetch_defs reject_env_def site_env_def offline_env_def)

lemma job_parse:
  "parse_job_page reject_env job_html ''https://example.com/jobs/1'' st =
   (Inr (Some sample_job), st)"
  by (simp add: parse_defs reject_env_def site_env_def offline_env_def job_element_def
      sample_job_def Let_def)

lemma job_push:
  "push_job_to_api reject_env sample_job st =
   (False, st\<lparr>history := history st @ [ApiPost sample_job]\<rparr>)"
  by (simp add: push_job_to_api_def reject_env_def site_env_def offline_env_def schema_ok_def
      is_str_def sample_job_def)

lemma job_links:
  "extract_links reject_env job_html ''https://example.com/jobs/1'' st = Inr []"
  by (simp add: extract_links_def reject_env_def site_env_def offline_env_def job_html_def
      index_html_def url_defs startswith_def Let_def)

lemma job_page:
  "crawl_page reject_env ''https://example.com/jobs/1''
     \<lparr>use_selenium = False, driver = False, scraped_jobs = [],
      visited_urls = {''https://example.com/jobs/1''}, queue = [], history = []\<rparr> 0 =
   (\<lparr>use_selenium = False, driver = False, scraped_jobs = [],
      visited_urls = {''https://example.com/jobs/1''}, queue = [],
      history = [StaticGet ''https://example.com/jobs/1'', ApiPost sample_job]\<rparr>, 0, None)"
proof -
  have "job_html \<noteq> []" by (simp add: job_html_def)
  then show ?thesis
    by (simp add: crawl_page_def job_fetch job_parse job_push job_links)
qed

text \<open>
  Claim C6 as stated fails: the record is extracted, its push returns \<open>False\<close>, one POST was
  made, and the record is not in \<open>scraped_jobs\<close>.
\<close>

theorem failed_push_retained_counterexample:
  "fst (parse_job_page reject_env job_html ''https://example.com/jobs/1''
         ((init_scraper False)\<lparr>visited_urls := {''https://example.com/jobs/1''},
            history := [StaticGet ''https://example.com/jobs/1'']\<rparr>)) = Inr (Some sample_job) \<and>
   fst (push_job_to_api reject_env sample_job
         ((init_scraper False)\<lparr>visited_urls := {''https://example.com/jobs/1''},
            history := [StaticGet ''https://example.com/jobs/1'']\<rparr>)) = False \<and>
   posted (history (fst (crawl_page reject_env ''https://example.com/jobs/1''
      ((init_scraper False)\<lparr>visited_urls := {''https://example.com/jobs/1''}\<rparr>) 0))) =
     [sample_job] \<and>
   sample_job \<notin> set (scraped_jobs (fst (crawl_page reject_env ''https://example.com/jobs/1''
      ((init_scraper False)\<lparr>visited_urls := {''https://example.com/jobs/1''}\<rparr>) 0)))"
  by (simp add: init_scraper_def job_parse job_push job_page)

text \<open>The amended claim on the same page.\<close>

theorem failed_push_drops_record_witness:
  "pydantic_ok reject_env sample_job \<and>
   \<not> api_post reject_env [StaticGet ''https://example.com/jobs/1''] sample_job \<and>
   fst (push_job_to_api reject_env sample_job
         \<lparr>use_selenium = False, driver = False, scraped_jobs = [],
          visited_urls = {''https://example.com/jobs/1''}, queue = [],
          history = [StaticGet ''https://example.com/jobs/1'']\<rparr>) = False \<and>
   scraped_jobs (fst (crawl_page reject_env ''https://example.com/jobs/1''
      \<lparr>use_selenium = False, driver = False, scraped_jobs = [],
       visited_urls = {''https://example.com/jobs/1''}, queue = [], history = []\<rparr> 0)) = [] \<and>
   fst (snd (crawl_page reject_env ''https://example.com/jobs/1''
      \<lparr>use_selenium = False, driver = False, scraped_jobs = [],
       visited_urls = {''https://example.com/jobs/1''}, queue = [], history = []\<rparr> 0)) = 0 \<and>
   posted (history (fst (crawl_page reject_env ''https://example.com/jobs/1''
      \<lparr>use_selenium = False, driver = False, scraped_jobs = [],
       visited_urls = {''https://example.com/jobs/1''}, queue = [], history = []\<rparr> 0))) =
     [sample_job]"
proof -
  have h: "job_html \<noteq> []" by (simp add: job_html_def)
  note t = failed_push_drops_record [OF job_fetch h job_parse,
      of "{''https://example.com/jobs/1''}" "[]" 0]
  have p: "pydantic_ok reject_env sample_job"
    by (simp add: reject_env_def site_env_def offline_env_def schema_ok_def is_str_def
        sample_job_def)
  have a: "\<not> api_post reject_env [StaticGet ''https://example.com/jobs/1''] sample_job"
    by (simp add: reject_env_def)
  show ?thesis using t p a by simp
qed

section \<open>A pass that uses up the page budget\<close>

















section \<open>A pass that a malformed link ends\<close>








text \<open>\<open>urljoin\<close> raises on the link \<open>http://[x/jobs\<close> of the posting.\<close>

lemma broken_join_raises:
  "urljoin broken_env ''https://example.com/jobs/1'' ''http://[x/jobs'' = None"
  by (simp add: broken_env_def site_env_def offline_env_def url_defs startswith_def Let_def)











section \<open>A page with more than 20 links\<close>

lemma board_join:
  "urljoin board_env ''https://example.com/jobs'' ''/jobs/1'' = Some ''https://example.com/jobs/1''"
  by (simp add: board_env_def site_env_def offline_env_def url_defs startswith_def Let_def)

lemma board_accepted:
  "link_accepted board_env {''https://example.com/jobs''} ''https://example.com/jobs''
     ''https://example.com/jobs/1''"
  by (simp add: link_accepted_def board_env_def site_env_def offline_env_def url_defs
      string_defs job_path_match_def job_path_patterns_def Let_def)

lemma board_accepts:
  "visited_urls st = {''https://example.com/jobs''} \<Longrightarrow>
   filter (link_accepted board_env (visited_urls st) ''https://example.com/jobs'')
     (List.map_filter (urljoin board_env ''https://example.com/jobs'') (replicate n ''/jobs/1'')) =
   replicate n ''https://example.com/jobs/1''"
  by (induction n) (simp_all add: map_filter_simps board_join board_accepted)

text \<open>
  The index page of the sample site: of its five anchors, the one to another host and the
  one to \<open>/about\<close> are dropped, and the repeated one is kept twice.  Of the 25 links of the
  board page, 20 are returned.
\<close>

theorem extract_links_same_host_witness:
  "extract_links site_env index_html ''https://example.com/jobs''
     ((init_scraper True)\<lparr>visited_urls := {''https://example.com/jobs''}\<rparr>) =
     Inr [''https://example.com/jobs/1'', ''https://example.com/jobs/2'',
          ''https://example.com/jobs/1''] \<and>
   urlparse site_env ''https://example.com/jobs/2'' \<noteq> None \<and>
   map_option netloc (urlparse site_env ''https://example.com/jobs/2'') =
     map_option netloc (urlparse site_env ''https://example.com/jobs'') \<and>
   length [''https://example.com/jobs/1'', ''https://example.com/jobs/2'',
           ''https://example.com/jobs/1''] \<le> (20::nat) \<and>
   extract_links board_env index_html ''https://example.com/jobs''
     ((init_scraper True)\<lparr>visited_urls := {''https://example.com/jobs''}\<rparr>) =
     Inr (replicate 20 ''https://example.com/jobs/1'') \<and>
   extract_links broken_env job_html ''https://example.com/jobs/1''
     ((init_scraper True)\<lparr>visited_urls := {''https://example.com/jobs''}\<rparr>) = Inl ValueError"
proof -
  let ?st = "(init_scraper True)\<lparr>visited_urls := {''https://example.com/jobs''}\<rparr>"
  have v: "visited_urls ?st = {''https://example.com/jobs''}" by simp
  note a = extract_links_same_host [of site_env index_html "''https://example.com/jobs''" ?st]
  note l = site_index_links [OF v]
  have 2: "urlparse site_env ''https://example.com/jobs/2'' \<noteq> None \<and>
     map_option netloc (urlparse site_env ''https://example.com/jobs/2'') =
     map_option netloc (urlparse site_env ''https://example.com/jobs'')"
    using a l by simp
  have 3: "length [''https://example.com/jobs/1'', ''https://example.com/jobs/2'',
           ''https://example.com/jobs/1''] \<le> (20::nat)"
    using a l by blast
  have h: "anchor_hrefs board_env index_html = replicate 25 ''/jobs/1''"
    by (simp add: board_env_def site_env_def offline_env_def)
  have p: "urlparse board_env ''https://example.com/jobs'' \<noteq> None"
    "urlparse board_env ''https://example.com/jobs/1'' \<noteq> None"
    by (simp_all add: board_env_def site_env_def offline_env_def url_defs startswith_def Let_def)
  note b = extract_links_same_host [of board_env index_html "''https://example.com/jobs''" ?st]
  have "\<forall>href\<in>set (anchor_hrefs board_env index_html).
      \<exists>full. urljoin board_env ''https://example.com/jobs'' href = Some full \<and>
        urlparse board_env full \<noteq> None"
    unfolding h using board_join p(2) by simp
  then obtain links where
    r: "extract_links board_env index_html ''https://example.com/jobs'' ?st = Inr links"
    using b p(1) by blast
  then have "links = take 20 (filter (link_accepted board_env (visited_urls ?st)
        ''https://example.com/jobs'')
      (List.map_filter (urljoin board_env ''https://example.com/jobs'')
         (anchor_hrefs board_env index_html)))"
    using b by blast
  then have "links = take 20 (replicate 25 ''https://example.com/jobs/1'')"
    unfolding h board_accepts [OF v] .
  then have 4: "extract_links board_env index_html ''https://example.com/jobs'' ?st =
      Inr (replicate 20 ''https://example.com/jobs/1'')"
    using r by simp
  note c = extract_links_same_host [of broken_env job_html "''https://example.com/jobs/1''" ?st]
  have "\<not> (\<forall>href\<in>set (anchor_hrefs broken_env job_html).
      \<exists>full. urljoin broken_env ''https://example.com/jobs/1'' href = Some full \<and>
        urlparse broken_env full \<noteq> None)"
    using broken_join_raises by (simp add: broken_env_def job_html_def index_html_def)
  then have "\<not> (\<exists>links. extract_links broken_env job_html ''https://example.com/jobs/1'' ?st =
      Inr links)"
    using c by blast
  then obtain exc where
    x: "extract_links broken_env job_html ''https://example.com/jobs/1'' ?st = Inl exc"
    by (cases "extract_links broken_env job_html ''https://example.com/jobs/1'' ?st") auto
  then have "exc = ValueError" using c by blast
  then have 5: "extract_links broken_env job_html ''https://example.com/jobs/1'' ?st =
      Inl ValueError"
    using x by simp
  show ?thesis using l 2 3 4 5 by blast
qed

end
